theory Spec2Isabelle
  imports Complex_Main
begin

section \<open>The particle animation of assets/js/particles.js\<close>

text \<open>
  The theory embeds the two classes of \<^verbatim>\<open>particles.js\<close>, \<^verbatim>\<open>ParticleSystem\<close> and
  \<^verbatim>\<open>Particle\<close>, together with the part of the browser they talk to.

  JavaScript numbers are modelled by the real numbers they stand for: \<open>+\<close>, \<open>*\<close>, \<open>/\<close>,
  \<^verbatim>\<open>Math.sqrt\<close>, \<^verbatim>\<open>Math.cos\<close>, \<^verbatim>\<open>Math.sin\<close> are the exact operations, so rounding, infinities
  and NaN are outside the model. \<^verbatim>\<open>particleCount\<close> is an integer.
  The browser is a record \<open>host\<close>: the sequence of results of \<^verbatim>\<open>Math.random()\<close>, the
  animation frame callbacks that are requested and not yet run, the debounce timer, the
  measured size of the canvas's parent, and the list of drawing operations sent to the
  2D context.
\<close>

subsection \<open>Options\<close>

text \<open>The \<^verbatim>\<open>options\<close> argument of the constructor: every key may be absent.\<close>

record raw_options =
  o_particleCount :: "int option"
  o_particleColor :: "string option"
  o_lineColor :: "string option"
  o_particleRadius :: "real option"
  o_lineDistance :: "real option"
  o_speed :: "real option"
  o_mouseInteraction :: "bool option"
  o_mouseRadius :: "real option"
  o_showParticles :: "bool option"
  o_lineWidth :: "real option"

text \<open>\<^verbatim>\<open>this.options\<close>. The last two keys exist only when the caller passed them.\<close>

record options =
  particleCount :: int
  particleColor :: string
  lineColor :: string
  particleRadius :: real
  lineDistance :: real
  speed :: real
  mouseInteraction :: bool
  mouseRadius :: real
  showParticles :: "bool option"
  lineWidth :: "real option"

text \<open>\<^verbatim>\<open>v || d\<close>: an absent key, the number 0 and the empty string are falsy.\<close>

definition js_or_int :: "int option \<Rightarrow> int \<Rightarrow> int" where
  "js_or_int v d = (case v of None \<Rightarrow> d | Some a \<Rightarrow> if a = 0 then d else a)"

definition js_or_num :: "real option \<Rightarrow> real \<Rightarrow> real" where
  "js_or_num v d = (case v of None \<Rightarrow> d | Some a \<Rightarrow> if a = 0 then d else a)"

definition js_or_str :: "string option \<Rightarrow> string \<Rightarrow> string" where
  "js_or_str v d = (case v of None \<Rightarrow> d | Some a \<Rightarrow> if a = [] then d else a)"

text \<open>\<^verbatim>\<open>...options\<close> at the end of the object literal: a key that is present overrides
  the value computed before it.\<close>

definition spread :: "'a option \<Rightarrow> 'a \<Rightarrow> 'a" where
  "spread v d = (case v of None \<Rightarrow> d | Some a \<Rightarrow> a)"

definition resolve_options :: "raw_options \<Rightarrow> options" where
  "resolve_options opts =
     \<lparr> particleCount = spread (o_particleCount opts) (js_or_int (o_particleCount opts) 80),
       particleColor = spread (o_particleColor opts)
                         (js_or_str (o_particleColor opts) ''rgba(206, 66, 43, 0.6)''),
       lineColor = spread (o_lineColor opts)
                     (js_or_str (o_lineColor opts) ''rgba(206, 66, 43, 0.15)''),
       particleRadius = spread (o_particleRadius opts) (js_or_num (o_particleRadius opts) 2),
       lineDistance = spread (o_lineDistance opts) (js_or_num (o_lineDistance opts) 150),
       speed = spread (o_speed opts) (js_or_num (o_speed opts) (1/2)),
       mouseInteraction = spread (o_mouseInteraction opts)
                            (o_mouseInteraction opts \<noteq> Some False),
       mouseRadius = spread (o_mouseRadius opts) (js_or_num (o_mouseRadius opts) 200),
       showParticles = o_showParticles opts,
       lineWidth = o_lineWidth opts \<rparr>"

subsection \<open>Particles, the system and the host\<close>

record particle =
  p_x :: real
  p_y :: real
  vx :: real
  vy :: real
  radius :: real
  originalRadius :: real

text \<open>\<^verbatim>\<open>this.mouse\<close>: \<open>None\<close> is \<^verbatim>\<open>null\<close>.\<close>

record mouse_state =
  m_x :: "real option"
  m_y :: "real option"
  m_radius :: real

text \<open>A \<^verbatim>\<open>ParticleSystem\<close> whose canvas was found. \<open>canvas_width\<close> and \<open>canvas_height\<close>
  are \<^verbatim>\<open>this.canvas.width\<close> and \<^verbatim>\<open>this.canvas.height\<close>; \<open>animationId = None\<close> is \<^verbatim>\<open>null\<close>.\<close>

record system =
  canvas_width :: real
  canvas_height :: real
  particles :: "particle list"
  animationId :: "nat option"
  isRunning :: bool
  options :: options
  mouse :: mouse_state

text \<open>Operations on the 2D context. A stroked line is recorded by the indices of the two
  particles it joins, the number written into the alpha position of \<^verbatim>\<open>lineColor\<close> and the
  line width.\<close>

datatype draw_cmd =
    ClearRect real real real real
  | FillArc real real real string
  | StrokeLine nat nat real real

record host =
  rand_seq :: "nat \<Rightarrow> real"
  rand_used :: nat
  doc_hidden :: bool
  in_view :: bool
  container :: "real \<times> real"
  frames :: "nat list"
  last_frame :: nat
  resize_timer :: bool
  ctx_log :: "draw_cmd list"

text \<open>\<^verbatim>\<open>Math.random()\<close>: the next value of the sequence.\<close>

definition Math_random :: "host \<Rightarrow> real \<times> host" where
  "Math_random h = (rand_seq h (rand_used h), h\<lparr>rand_used := Suc (rand_used h)\<rparr>)"

text \<open>\<^verbatim>\<open>requestAnimationFrame\<close> returns a fresh non-zero handle and queues the callback;
  \<^verbatim>\<open>cancelAnimationFrame\<close> removes it from the queue.\<close>

definition requestAnimationFrame :: "host \<Rightarrow> nat \<times> host" where
  "requestAnimationFrame h =
     (let k = Suc (last_frame h) in (k, h\<lparr>frames := frames h @ [k], last_frame := k\<rparr>))"

definition cancelAnimationFrame :: "nat \<Rightarrow> host \<Rightarrow> host" where
  "cancelAnimationFrame k h = h\<lparr>frames := removeAll k (frames h)\<rparr>"

text \<open>\<^verbatim>\<open>Math.atan2(y, x)\<close>.\<close>

definition atan2 :: "real \<Rightarrow> real \<Rightarrow> real" where
  "atan2 y x =
     (if 0 < x then arctan (y / x)
      else if x < 0 then (if 0 \<le> y then arctan (y / x) + pi else arctan (y / x) - pi)
      else if 0 < y then pi / 2
      else if y < 0 then - (pi / 2)
      else 0)"

subsection \<open>Particle\<close>

text \<open>The constructor of \<^verbatim>\<open>Particle\<close> reads five random numbers, in this order.\<close>

definition new_Particle :: "system \<Rightarrow> host \<Rightarrow> particle \<times> host" where
  "new_Particle s h =
     (let (r1, h1) = Math_random h;
          (r2, h2) = Math_random h1;
          (r3, h3) = Math_random h2;
          (r4, h4) = Math_random h3;
          (r5, h5) = Math_random h4;
          rad = r5 * particleRadius (options s) + 1
      in (\<lparr> p_x = r1 * canvas_width s,
             p_y = r2 * canvas_height s,
             vx = (r3 - 1/2) * speed (options s),
             vy = (r4 - 1/2) * speed (options s),
             radius = rad,
             originalRadius = rad \<rparr>, h5))"

text \<open>\<^verbatim>\<open>update()\<close>, block by block as the source comments them. In
  \<^verbatim>\<open>this.y - this.system.mouse.y\<close> a \<^verbatim>\<open>null\<close> counts as 0.\<close>

definition mouse_interaction :: "system \<Rightarrow> particle \<Rightarrow> particle" where
  "mouse_interaction s p =
     (case m_x (mouse s) of
        None \<Rightarrow> p
      | Some mx \<Rightarrow>
          if \<not> mouseInteraction (options s) then p
          else
            let dx = p_x p - mx;
                dy = p_y p - (case m_y (mouse s) of None \<Rightarrow> 0 | Some my \<Rightarrow> my);
                distance = sqrt (dx * dx + dy * dy)
            in if distance < m_radius (mouse s) then
                 let force = (m_radius (mouse s) - distance) / m_radius (mouse s);
                     angle = atan2 dy dx
                 in p\<lparr> vx := vx p + cos angle * force * (1/2),
                        vy := vy p + sin angle * force * (1/2),
                        radius := originalRadius p * (1 + force) \<rparr>
               else p\<lparr> radius := originalRadius p \<rparr>)"

definition apply_velocity :: "particle \<Rightarrow> particle" where
  "apply_velocity p =
     p\<lparr> p_x := p_x p + vx p, p_y := p_y p + vy p,
        vx := vx p * (99/100), vy := vy p * (99/100) \<rparr>"

definition random_velocity :: "real \<Rightarrow> real \<Rightarrow> particle \<Rightarrow> particle" where
  "random_velocity r1 r2 p =
     p\<lparr> vx := vx p + (r1 - 1/2) * (1/10), vy := vy p + (r2 - 1/2) * (1/10) \<rparr>"

definition clamp_velocity :: "system \<Rightarrow> particle \<Rightarrow> particle" where
  "clamp_velocity s p =
     (let maxSpeed = speed (options s) * 2
      in p\<lparr> vx := max (- maxSpeed) (min maxSpeed (vx p)),
             vy := max (- maxSpeed) (min maxSpeed (vy p)) \<rparr>)"

definition boundary_collision :: "system \<Rightarrow> particle \<Rightarrow> particle" where
  "boundary_collision s p =
     (let p1 = (if p_x p < 0 \<or> p_x p > canvas_width s
                then p\<lparr> vx := vx p * (- 1), p_x := max 0 (min (canvas_width s) (p_x p)) \<rparr>
                else p)
      in if p_y p1 < 0 \<or> p_y p1 > canvas_height s
         then p1\<lparr> vy := vy p1 * (- 1), p_y := max 0 (min (canvas_height s) (p_y p1)) \<rparr>
         else p1)"

definition update :: "system \<Rightarrow> particle \<Rightarrow> host \<Rightarrow> particle \<times> host" where
  "update s p h =
     (let p1 = mouse_interaction s p;
          p2 = apply_velocity p1;
          (r1, h1) = Math_random h;
          (r2, h2) = Math_random h1;
          p3 = random_velocity r1 r2 p2;
          p4 = clamp_velocity s p3
      in (boundary_collision s p4, h2))"

definition draw :: "system \<Rightarrow> particle \<Rightarrow> host \<Rightarrow> host" where
  "draw s p h =
     (if showParticles (options s) \<noteq> Some False
      then h\<lparr>ctx_log := ctx_log h @
                [FillArc (p_x p) (p_y p) (radius p) (particleColor (options s))]\<rparr>
      else h)"

subsection \<open>ParticleSystem\<close>

definition resize :: "system \<Rightarrow> host \<Rightarrow> system" where
  "resize s h = s\<lparr> canvas_width := fst (container h), canvas_height := snd (container h) \<rparr>"

text \<open>The loop of \<^verbatim>\<open>createParticles\<close>, with its counter \<open>i\<close>.\<close>

function create_loop :: "system \<Rightarrow> nat \<Rightarrow> host \<Rightarrow> system \<times> host" where
  "create_loop s i h =
     (if int i < particleCount (options s)
      then (case new_Particle s h of
              (p, h') \<Rightarrow> create_loop (s\<lparr>particles := particles s @ [p]\<rparr>) (Suc i) h')
      else (s, h))"
  by pat_completeness auto
termination
  by (relation "measure (\<lambda>(s, i, h). nat (particleCount (options s) - int i))") auto

definition createParticles :: "system \<Rightarrow> host \<Rightarrow> system \<times> host" where
  "createParticles s h = create_loop (s\<lparr>particles := []\<rparr>) 0 h"

text \<open>The two loops of \<^verbatim>\<open>connectParticles\<close>.\<close>

definition pair_distance :: "particle \<Rightarrow> particle \<Rightarrow> real" where
  "pair_distance a b =
     (let dx = p_x a - p_x b; dy = p_y a - p_y b in sqrt (dx * dx + dy * dy))"

function connect_inner :: "system \<Rightarrow> nat \<Rightarrow> nat \<Rightarrow> host \<Rightarrow> host" where
  "connect_inner s i j h =
     (if j < length (particles s)
      then
        (let distance = pair_distance (particles s ! i) (particles s ! j)
         in connect_inner s i (Suc j)
              (if distance < lineDistance (options s)
               then (let opacity = 1 - distance / lineDistance (options s)
                     in h\<lparr>ctx_log := ctx_log h @
                            [StrokeLine i j (opacity * (8/10))
                               (js_or_num (lineWidth (options s)) (3/2))]\<rparr>)
               else h))
      else h)"
  by pat_completeness auto
termination
  by (relation "measure (\<lambda>(s, i, j, h). length (particles s) - j)") auto

function connect_outer :: "system \<Rightarrow> nat \<Rightarrow> host \<Rightarrow> host" where
  "connect_outer s i h =
     (if i < length (particles s)
      then connect_outer s (Suc i) (connect_inner s i (i + 1) h)
      else h)"
  by pat_completeness auto
termination
  by (relation "measure (\<lambda>(s, i, h). length (particles s) - i)") auto

definition connectParticles :: "system \<Rightarrow> host \<Rightarrow> host" where
  "connectParticles s h = connect_outer s 0 h"

text \<open>\<^verbatim>\<open>this.particles.forEach(particle => { particle.update(); particle.draw(); })\<close>.\<close>

fun update_all :: "system \<Rightarrow> particle list \<Rightarrow> host \<Rightarrow> particle list \<times> host" where
  "update_all s [] h = ([], h)"
| "update_all s (p # ps) h =
     (case update s p h of
        (p', h1) \<Rightarrow>
          (case update_all s ps (draw s p' h1) of
             (ps', h2) \<Rightarrow> (p' # ps', h2)))"

definition animate :: "system \<Rightarrow> host \<Rightarrow> system \<times> host" where
  "animate s h =
     (if \<not> isRunning s then (s, h)
      else
        let h1 = h\<lparr>ctx_log := ctx_log h @ [ClearRect 0 0 (canvas_width s) (canvas_height s)]\<rparr>;
            (ps, h2) = update_all s (particles s) h1;
            s1 = s\<lparr>particles := ps\<rparr>;
            h3 = connectParticles s1 h2;
            (k, h4) = requestAnimationFrame h3
        in (s1\<lparr>animationId := Some k\<rparr>, h4))"

definition start :: "system \<Rightarrow> host \<Rightarrow> system \<times> host" where
  "start s h = (if isRunning s then (s, h) else animate (s\<lparr>isRunning := True\<rparr>) h)"

text \<open>\<^verbatim>\<open>if (this.animationId)\<close>: \<^verbatim>\<open>null\<close> and 0 are falsy.\<close>

definition stop :: "system \<Rightarrow> host \<Rightarrow> system \<times> host" where
  "stop s h =
     (let s1 = s\<lparr>isRunning := False\<rparr>
      in case animationId s1 of
           None \<Rightarrow> (s1, h)
         | Some k \<Rightarrow> if k = 0 then (s1, h)
                     else (s1\<lparr>animationId := None\<rparr>, cancelAnimationFrame k h))"

subsection \<open>Events\<close>

text \<open>
  What the listeners bound by \<^verbatim>\<open>bindEvents\<close> do when the browser delivers an event.
  \<open>WindowResize w h\<close>: the window is resized and the parent of the canvas now measures
  \<open>w \<times> h\<close>; \<open>ResizeTimeout\<close>: the 200 ms timer set by the resize listener expires;
  \<open>MouseMove cx cy rl rt\<close>: \<^verbatim>\<open>clientX\<close>, \<^verbatim>\<open>clientY\<close> and \<^verbatim>\<open>left\<close>, \<^verbatim>\<open>top\<close> of the
  canvas's bounding rectangle; \<open>VisibilityChange b\<close>: \<^verbatim>\<open>document.hidden\<close> becomes \<open>b\<close>;
  \<open>Intersection bs\<close>: the observer, created with \<^verbatim>\<open>threshold: 0.1\<close>, delivers entries with
  these \<^verbatim>\<open>isIntersecting\<close> flags, and the canvas is in view or not as the last one says;
  \<open>AnimationFrame k\<close>: the browser runs the frame callback with handle \<open>k\<close>.
\<close>

datatype event =
    WindowResize real real
  | ResizeTimeout
  | MouseMove real real real real
  | MouseLeave
  | VisibilityChange bool
  | Intersection "bool list"
  | AnimationFrame nat

fun observe_entries :: "bool list \<Rightarrow> system \<Rightarrow> host \<Rightarrow> system \<times> host" where
  "observe_entries [] s h = (s, h)"
| "observe_entries (b # bs) s h =
     (case (if b then start s h else stop s h) of (s', h') \<Rightarrow> observe_entries bs s' h')"

fun fire :: "event \<Rightarrow> system \<Rightarrow> host \<Rightarrow> system \<times> host" where
  "fire (WindowResize w ht) s h = (s, h\<lparr>container := (w, ht), resize_timer := True\<rparr>)"
| "fire ResizeTimeout s h =
     (if resize_timer h
      then createParticles (resize s h) (h\<lparr>resize_timer := False\<rparr>)
      else (s, h))"
| "fire (MouseMove cx cy rl rt) s h =
     (if mouseInteraction (options s)
      then (s\<lparr>mouse := (mouse s)\<lparr>m_x := Some (cx - rl), m_y := Some (cy - rt)\<rparr>\<rparr>, h)
      else (s, h))"
| "fire MouseLeave s h =
     (if mouseInteraction (options s)
      then (s\<lparr>mouse := (mouse s)\<lparr>m_x := None, m_y := None\<rparr>\<rparr>, h)
      else (s, h))"
| "fire (VisibilityChange b) s h =
     (let h1 = h\<lparr>doc_hidden := b\<rparr>
      in if doc_hidden h1 then stop s h1 else start s h1)"
| "fire (Intersection bs) s h =
     observe_entries bs s (h\<lparr>in_view := (if bs = [] then in_view h else last bs)\<rparr>)"
| "fire (AnimationFrame k) s h =
     (if k \<in> set (frames h) then animate s (h\<lparr>frames := removeAll k (frames h)\<rparr>)
      else (s, h))"

fun run :: "event list \<Rightarrow> system \<Rightarrow> host \<Rightarrow> system \<times> host" where
  "run [] s h = (s, h)"
| "run (e # es) s h = (case fire e s h of (s', h') \<Rightarrow> run es s' h')"

subsection \<open>Construction\<close>

text \<open>
  \<^verbatim>\<open>document.getElementById\<close> either finds the canvas, of some size, or returns
  \<^verbatim>\<open>null\<close>. In the second case the constructor returns at once and the object has no
  field but \<^verbatim>\<open>canvas = null\<close>: it is \<open>Inert\<close>, and the only field its methods can give it
  is \<^verbatim>\<open>isRunning\<close>, absent (falsy) at first.
\<close>

datatype handle = Inert bool | Live system

definition init :: "system \<Rightarrow> host \<Rightarrow> system \<times> host" where
  "init s h = (case createParticles (resize s h) h of (s1, h1) \<Rightarrow> start s1 h1)"

definition new_ParticleSystem ::
    "(real \<times> real) option \<Rightarrow> raw_options \<Rightarrow> host \<Rightarrow> handle \<times> host" where
  "new_ParticleSystem canvas opts h =
     (case canvas of
        None \<Rightarrow> (Inert False, h)
      | Some (w, ht) \<Rightarrow>
          (let os = resolve_options opts;
               s = \<lparr> canvas_width = w, canvas_height = ht, particles = [],
                     animationId = None, isRunning = False, options = os,
                     mouse = \<lparr> m_x = None, m_y = None, m_radius = mouseRadius os \<rparr> \<rparr>
           in case init s h of (s', h') \<Rightarrow> (Live s', h')))"

text \<open>
  The methods on an inert object. \<^verbatim>\<open>this.ctx\<close> is \<^verbatim>\<open>undefined\<close> and \<^verbatim>\<open>this.canvas\<close> is
  \<^verbatim>\<open>null\<close>, so reading a property of either throws a \<^verbatim>\<open>TypeError\<close>; the assignments made
  before the throw stay. The result is the error, if any, and the new value of
  \<^verbatim>\<open>isRunning\<close>.
\<close>

datatype js_error = TypeError

definition inert_animate :: "bool \<Rightarrow> js_error option \<times> bool" where
  "inert_animate running = (if \<not> running then (None, running) else (Some TypeError, running))"

definition inert_start :: "bool \<Rightarrow> js_error option \<times> bool" where
  "inert_start running = (if running then (None, running) else inert_animate True)"

definition inert_stop :: "bool \<Rightarrow> js_error option \<times> bool" where
  "inert_stop running = (None, False)"

definition inert_resize :: "bool \<Rightarrow> js_error option \<times> bool" where
  "inert_resize running = (Some TypeError, running)"

subsection \<open>Vocabulary of the properties\<close>

text \<open>The bounds of a particle inside a system: position on the canvas, each velocity
  component at most twice the configured speed.\<close>

definition in_bounds :: "system \<Rightarrow> particle \<Rightarrow> bool" where
  "in_bounds s p \<longleftrightarrow>
     0 \<le> p_x p \<and> p_x p \<le> canvas_width s \<and> 0 \<le> p_y p \<and> p_y p \<le> canvas_height s \<and>
     \<bar>vx p\<bar> \<le> 2 * speed (options s) \<and> \<bar>vy p\<bar> \<le> 2 * speed (options s)"

text \<open>The proximity graph as the specification words it: for every pair \<open>i < j\<close>, one
  edge when the distance is below \<^verbatim>\<open>lineDistance\<close>, with opacity
  \<open>(1 - d / lineDistance) * 0.8\<close>.\<close>

definition pair_edge :: "system \<Rightarrow> nat \<Rightarrow> nat \<Rightarrow> draw_cmd list" where
  "pair_edge s i j =
     (let d = pair_distance (particles s ! i) (particles s ! j)
      in if d < lineDistance (options s)
         then [StrokeLine i j ((1 - d / lineDistance (options s)) * (8/10))
                 (js_or_num (lineWidth (options s)) (3/2))]
         else [])"

definition proximity_edges :: "system \<Rightarrow> draw_cmd list" where
  "proximity_edges s =
     concat (map (\<lambda>i. concat (map (pair_edge s i) [Suc i..<length (particles s)]))
               [0..<length (particles s)])"

text \<open>Rounding to three decimals.\<close>

definition round3 :: "real \<Rightarrow> real" where
  "round3 a = real_of_int \<lfloor>a * 1000 + 1/2\<rfloor> / 1000"

fun alpha_of :: "draw_cmd \<Rightarrow> real" where
  "alpha_of (StrokeLine i j a w) = a"
| "alpha_of _ = 0"

text \<open>Concrete values for the examples: the empty options object, a browser that has
  done nothing yet and whose \<^verbatim>\<open>Math.random()\<close> always returns one half, a particle at
  rest, and a system of three particles on a line.\<close>

definition no_options :: raw_options where
  "no_options =
     \<lparr> o_particleCount = None, o_particleColor = None, o_lineColor = None,
       o_particleRadius = None, o_lineDistance = None, o_speed = None,
       o_mouseInteraction = None, o_mouseRadius = None, o_showParticles = None,
       o_lineWidth = None \<rparr>"

definition fresh_host :: host where
  "fresh_host =
     \<lparr> rand_seq = (\<lambda>_. 1/2), rand_used = 0, doc_hidden = False, in_view = True,
       container = (800, 600), frames = [], last_frame = 0, resize_timer = False,
       ctx_log = [] \<rparr>"

definition particle_at :: "real \<Rightarrow> real \<Rightarrow> particle" where
  "particle_at a b = \<lparr> p_x = a, p_y = b, vx = 0, vy = 0, radius = 2, originalRadius = 2 \<rparr>"

definition line_system :: "real \<Rightarrow> system" where
  "line_system d =
     \<lparr> canvas_width = 800, canvas_height = 600,
       particles = [particle_at 0 0, particle_at 50 0, particle_at 140 0],
       animationId = None, isRunning = False,
       options = resolve_options (no_options\<lparr>o_particleCount := Some 3, o_lineDistance := Some d\<rparr>),
       mouse = \<lparr> m_x = None, m_y = None, m_radius = 200 \<rparr> \<rparr>"

text \<open>What a pass over the particles leaves alone in the host: everything but the
  count of random numbers read and the drawing log.\<close>

definition same_schedule :: "host \<Rightarrow> host \<Rightarrow> bool" where
  "same_schedule h h' \<longleftrightarrow>
     rand_seq h' = rand_seq h \<and> doc_hidden h' = doc_hidden h \<and> in_view h' = in_view h \<and>
     container h' = container h \<and> frames h' = frames h \<and> last_frame h' = last_frame h \<and>
     resize_timer h' = resize_timer h"

text \<open>A system with the pointer at the origin of the canvas.\<close>

definition pointer_system :: system where
  "pointer_system =
     (line_system 150)\<lparr>mouse := \<lparr> m_x = Some 0, m_y = Some 0, m_radius = 200 \<rparr>\<rparr>"

text \<open>The scheduling invariant: a running system has exactly one frame callback
  requested, the one whose handle is in \<^verbatim>\<open>animationId\<close>; a stopped system has none.\<close>

definition scheduled :: "system \<Rightarrow> host \<Rightarrow> bool" where
  "scheduled s h \<longleftrightarrow>
     (if isRunning s
      then (case animationId s of
              None \<Rightarrow> False
            | Some k \<Rightarrow> k \<noteq> 0 \<and> frames h = [k] \<and> k \<le> last_frame h)
      else animationId s = None \<and> frames h = [])"

text \<open>The events whose listener calls \<^verbatim>\<open>start()\<close>: the page becomes visible, or an
  observer entry is intersecting. The events after which the system is stopped: the page
  becomes hidden, or the last observer entry is not intersecting. And the start signals
  that arrive while the other signal is favourable too: the surface is in view and the
  page is not hidden.\<close>

fun start_signal :: "event \<Rightarrow> bool" where
  "start_signal (VisibilityChange b) = (\<not> b)"
| "start_signal (Intersection bs) = (True \<in> set bs)"
| "start_signal _ = False"

fun stop_signal :: "event \<Rightarrow> bool" where
  "stop_signal (VisibilityChange b) = b"
| "stop_signal (Intersection bs) = (bs \<noteq> [] \<and> \<not> last bs)"
| "stop_signal _ = False"

fun visible_signal :: "event \<Rightarrow> host \<Rightarrow> bool" where
  "visible_signal (VisibilityChange b) h = (\<not> b \<and> in_view h)"
| "visible_signal (Intersection bs) h = (bs \<noteq> [] \<and> last bs \<and> \<not> doc_hidden h)"
| "visible_signal _ h = False"

text \<open>The pointer events, and two systems that differ in nothing but the pointer state.\<close>

fun pointer_event :: "event \<Rightarrow> bool" where
  "pointer_event (MouseMove cx cy rl rt) = True"
| "pointer_event MouseLeave = True"
| "pointer_event _ = False"

definition same_but_mouse :: "system \<Rightarrow> system \<Rightarrow> bool" where
  "same_but_mouse s t \<longleftrightarrow>
     canvas_width t = canvas_width s \<and> canvas_height t = canvas_height s \<and>
     particles t = particles s \<and> animationId t = animationId s \<and>
     isRunning t = isRunning s \<and> options t = options s"

text \<open>Events reach the listeners of a live system; an inert object has bound none.\<close>

fun deliver :: "event list \<Rightarrow> handle \<times> host \<Rightarrow> handle \<times> host" where
  "deliver es (Live s, h) = (case run es s h of (s', h') \<Rightarrow> (Live s', h'))"
| "deliver es (Inert b, h) = (Inert b, h)"

fun handle_running :: "handle \<Rightarrow> bool" where
  "handle_running (Live s) = isRunning s"
| "handle_running (Inert b) = b"

text \<open>Observations of a handle.\<close>

fun handle_particles :: "handle \<Rightarrow> particle list" where
  "handle_particles (Live s) = particles s"
| "handle_particles (Inert b) = []"

fun handle_pointer :: "handle \<Rightarrow> real option" where
  "handle_pointer (Live s) = m_x (mouse s)"
| "handle_pointer (Inert b) = None"

text \<open>More concrete values: options with no particle and with one particle, a browser
  whose page is hidden and whose canvas is out of view, a system with
  \<^verbatim>\<open>mouseInteraction: false\<close>, and the system constructed with one particle.\<close>

definition empty_options :: raw_options where
  "empty_options = no_options\<lparr>o_particleCount := Some 0\<rparr>"

definition single_options :: raw_options where
  "single_options = no_options\<lparr>o_particleCount := Some 1\<rparr>"

definition offscreen_host :: host where
  "offscreen_host = fresh_host\<lparr>doc_hidden := True, in_view := False\<rparr>"

definition still_system :: system where
  "still_system =
     (line_system 150)\<lparr>options := resolve_options (no_options\<lparr>o_mouseInteraction := Some False\<rparr>)\<rparr>"

definition single_start :: "handle \<times> host" where
  "single_start = new_ParticleSystem (Some (300, 150)) single_options fresh_host"

section \<open>Properties\<close>

declare create_loop.simps [simp del] connect_inner.simps [simp del]
  connect_outer.simps [simp del]

subsection \<open>Option resolution\<close>

lemma resolve_options_particleCount:
  "particleCount (resolve_options opts) = (case o_particleCount opts of None \<Rightarrow> 80 | Some n \<Rightarrow> n)"
  by (simp add: resolve_options_def spread_def js_or_int_def split: option.splits)

lemma resolve_options_lineDistance:
  "lineDistance (resolve_options opts) = (case o_lineDistance opts of None \<Rightarrow> 150 | Some d \<Rightarrow> d)"
  by (simp add: resolve_options_def spread_def js_or_num_def split: option.splits)

subsection \<open>Seeding\<close>

lemma create_loop_length:
  "int i \<le> particleCount (options s) \<Longrightarrow>
   int (length (particles (fst (create_loop s i h)))) =
     int (length (particles s)) + (particleCount (options s) - int i)"
proof (induction s i h rule: create_loop.induct)
  case (1 s i h)
  show ?case
  proof (cases "int i < particleCount (options s)")
    case True
    obtain p h' where ph: "new_Particle s h = (p, h')" by (cases "new_Particle s h")
    have "int (length (particles (fst (create_loop (s\<lparr>particles := particles s @ [p]\<rparr>) (Suc i) h')))) =
          int (length (particles (s\<lparr>particles := particles s @ [p]\<rparr>))) +
          (particleCount (options (s\<lparr>particles := particles s @ [p]\<rparr>)) - int (Suc i))"
      using "1.IH"[OF True ph[symmetric]] True by simp
    then show ?thesis using True ph by (subst create_loop.simps) simp
  next
    case False
    then show ?thesis using "1.prems" by (subst create_loop.simps) simp
  qed
qed

text \<open>
  C1. For every configuration (with the count a non-negative integer, as the data model
  has it) \<^verbatim>\<open>createParticles\<close> leaves exactly \<^verbatim>\<open>particleCount\<close> particles in the collection;
  a count of 0 gives the empty collection, and a count of 0 passed to the constructor
  is kept by the option resolution (the default of 80 does not replace it).
\<close>

theorem createParticles_count:
  assumes "0 \<le> particleCount (options s)"
  shows "int (length (particles (fst (createParticles s h)))) = particleCount (options s) \<and>
         (particleCount (options s) = 0 \<longrightarrow> particles (fst (createParticles s h)) = []) \<and>
         (\<forall>opts. o_particleCount opts = Some 0 \<longrightarrow>
            particles (fst (createParticles (s\<lparr>options := resolve_options opts\<rparr>) h)) = [])"
proof -
  have count: "int (length (particles (fst (createParticles t h)))) = particleCount (options t)"
    if "0 \<le> particleCount (options t)" for t
    using create_loop_length[of 0 "t\<lparr>particles := []\<rparr>" h] that
    by (simp add: createParticles_def)
  have zero: "particles (fst (createParticles t h)) = []" if "particleCount (options t) = 0" for t
    using count[of t] that by simp
  show ?thesis
    using count[OF assms] zero by (simp add: resolve_options_particleCount)
qed

theorem createParticles_count_witness:
  "int (length (particles (fst (createParticles (line_system 150) fresh_host)))) = 3 \<and>
   particles (fst (createParticles
      ((line_system 150)\<lparr>options := resolve_options (no_options\<lparr>o_particleCount := Some 0\<rparr>)\<rparr>)
      fresh_host)) = []"
  using createParticles_count[of "line_system 150" fresh_host]
  by (simp add: line_system_def resolve_options_particleCount no_options_def)

subsection \<open>The proximity graph\<close>

lemma connect_inner_eq:
  "connect_inner s i j h =
     h\<lparr>ctx_log := ctx_log h @ concat (map (pair_edge s i) [j..<length (particles s)])\<rparr>"
proof (induction s i j h rule: connect_inner.induct)
  case (1 s i j h)
  show ?case
  proof (cases "j < length (particles s)")
    case True
    then have upt: "[j..<length (particles s)] = j # [Suc j..<length (particles s)]"
      by (simp add: upt_conv_Cons)
    define D where "D = pair_distance (particles s ! i) (particles s ! j)"
    define h' where "h' =
      (if D < lineDistance (options s)
       then h\<lparr>ctx_log := ctx_log h @
              [StrokeLine i j ((1 - D / lineDistance (options s)) * (8/10))
                 (js_or_num (lineWidth (options s)) (3/2))]\<rparr>
       else h)"
    have h': "h' = h\<lparr>ctx_log := ctx_log h @ pair_edge s i j\<rparr>"
      unfolding h'_def pair_edge_def Let_def D_def by (simp only: split: if_splits) simp
    have "connect_inner s i j h = connect_inner s i (Suc j) h'"
      unfolding h'_def D_def by (subst connect_inner.simps) (simp only: True if_True Let_def)
    also have "\<dots> = h'\<lparr>ctx_log := ctx_log h' @
                 concat (map (pair_edge s i) [Suc j..<length (particles s)])\<rparr>"
      using "1.IH"[OF True refl] unfolding h'_def D_def Let_def .
    also have "\<dots> = h\<lparr>ctx_log := ctx_log h @
                 concat (map (pair_edge s i) [j..<length (particles s)])\<rparr>"
      by (simp add: h' upt)
    finally show ?thesis .
  next
    case False
    then show ?thesis by (subst connect_inner.simps) simp
  qed
qed

lemma connect_outer_eq:
  "connect_outer s i h =
     h\<lparr>ctx_log := ctx_log h @
        concat (map (\<lambda>i. concat (map (pair_edge s i) [Suc i..<length (particles s)]))
                  [i..<length (particles s)])\<rparr>"
proof (induction s i h rule: connect_outer.induct)
  case (1 s i h)
  show ?case
  proof (cases "i < length (particles s)")
    case True
    then have upt: "[i..<length (particles s)] = i # [Suc i..<length (particles s)]"
      by (simp add: upt_conv_Cons)
    show ?thesis
      using "1.IH"[OF True] True
      by (subst connect_outer.simps) (simp add: upt connect_inner_eq)
  next
    case False
    then show ?thesis by (subst connect_outer.simps) simp
  qed
qed

lemma connectParticles_eq:
  "connectParticles s h = h\<lparr>ctx_log := ctx_log h @ proximity_edges s\<rparr>"
  by (simp add: connectParticles_def connect_outer_eq proximity_edges_def)

lemma proximity_edges_iff:
  "StrokeLine i j a w \<in> set (proximity_edges s) \<longleftrightarrow>
     i < j \<and> j < length (particles s) \<and>
     pair_distance (particles s ! i) (particles s ! j) < lineDistance (options s) \<and>
     a = (1 - pair_distance (particles s ! i) (particles s ! j) / lineDistance (options s)) * (8/10) \<and>
     w = js_or_num (lineWidth (options s)) (3/2)"
  by (auto simp: proximity_edges_def pair_edge_def Let_def split: if_splits)

lemma opacity_decreasing:
  fixes L :: real
  assumes "0 \<le> d1" "d1 < d2" "d2 < L"
  shows "(1 - d2 / L) * (8/10) < (1 - d1 / L) * (8/10)"
proof -
  have "0 < L" using assms by linarith
  then have "d1 / L < d2 / L" using assms(2) by (simp add: divide_strict_right_mono)
  then show ?thesis by simp
qed

lemma three_edges:
  assumes "particles s = [a, b, c]"
  shows "proximity_edges s = pair_edge s 0 1 @ pair_edge s 0 2 @ pair_edge s 1 2"
proof -
  have "[0..<3] = [0, 1, 2::nat]" "[Suc 0..<3] = [1, 2::nat]" "[Suc 1..<3] = [2::nat]" "[Suc 2..<3] = []"
    by (simp_all add: upt_rec)
  then show ?thesis by (simp add: proximity_edges_def assms eval_nat_numeral)
qed

lemma pair_distance_horizontal: "p_y a = p_y b \<Longrightarrow> pair_distance a b = \<bar>p_x a - p_x b\<bar>"
  by (simp add: pair_distance_def Let_def)

lemma pair_distance_nonneg: "0 \<le> pair_distance a b"
  by (simp add: pair_distance_def Let_def)

lemma line_system_particles:
  "particles (line_system d) = [particle_at 0 0, particle_at 50 0, particle_at 140 0]"
  by (simp add: line_system_def)

lemma line_system_lineDistance: "lineDistance (options (line_system d)) = d"
  by (simp add: line_system_def resolve_options_lineDistance no_options_def)

lemma line_system_lineWidth: "js_or_num (lineWidth (options (line_system d))) (3/2) = 3/2"
  by (simp add: line_system_def resolve_options_def no_options_def js_or_num_def)

lemma line_system_distances:
  "pair_distance (particle_at 0 0) (particle_at 50 0) = 50"
  "pair_distance (particle_at 50 0) (particle_at 140 0) = 90"
  "pair_distance (particle_at 0 0) (particle_at 140 0) = 140"
  by (simp_all add: pair_distance_horizontal particle_at_def)

text \<open>
  C7. \<^verbatim>\<open>connectParticles\<close> appends to the context exactly the edges of the proximity graph:
  a line is stroked for the pair \<open>(i, j)\<close> if and only if \<open>i < j\<close>, both are particles
  and their Euclidean distance \<open>d\<close> is strictly below \<^verbatim>\<open>lineDistance\<close>; its opacity is
  \<open>(1 - d / lineDistance) * 0.8\<close>, and that opacity is strictly decreasing in \<open>d\<close> over
  the distances that are drawn. At \<open>d \<ge> lineDistance\<close> nothing is drawn.
\<close>

theorem connectParticles_edges:
  "connectParticles s h = h\<lparr>ctx_log := ctx_log h @ proximity_edges s\<rparr> \<and>
   (\<forall>i j a w. StrokeLine i j a w \<in> set (ctx_log (connectParticles s (h\<lparr>ctx_log := []\<rparr>))) \<longleftrightarrow>
      i < j \<and> j < length (particles s) \<and>
      pair_distance (particles s ! i) (particles s ! j) < lineDistance (options s) \<and>
      a = (1 - pair_distance (particles s ! i) (particles s ! j) / lineDistance (options s)) * (8/10) \<and>
      w = js_or_num (lineWidth (options s)) (3/2)) \<and>
   (\<forall>d1 d2. 0 \<le> d1 \<longrightarrow> d1 < d2 \<longrightarrow> d2 < lineDistance (options s) \<longrightarrow>
      (1 - d2 / lineDistance (options s)) * (8/10) < (1 - d1 / lineDistance (options s)) * (8/10))"
  using opacity_decreasing[of _ _ "lineDistance (options s)"]
  by (simp add: connectParticles_eq proximity_edges_iff)

theorem connectParticles_edges_witness:
  "StrokeLine 0 1 (8/15) (3/2)
     \<in> set (ctx_log (connectParticles (line_system 150) (fresh_host\<lparr>ctx_log := []\<rparr>))) \<and>
   StrokeLine 0 1 (8/15) (3/2)
     \<notin> set (ctx_log (connectParticles (line_system 40) (fresh_host\<lparr>ctx_log := []\<rparr>))) \<and>
   (1 - 90 / lineDistance (options (line_system 150))) * (8/10)
     < (1 - 50 / lineDistance (options (line_system 150))) * (8/10)"
  using connectParticles_edges[of "line_system 150" fresh_host]
    connectParticles_edges[of "line_system 40" fresh_host]
  by (simp add: line_system_particles line_system_lineDistance line_system_distances
      line_system_lineWidth)

text \<open>
  C3, as amended. Three particles with pairwise distances 50, 90 and 140 (so on one
  line) and \<^verbatim>\<open>lineDistance = 150\<close> give exactly three edges, for the pairs \<open>(0,1)\<close>, \<open>(0,2)\<close>,
  \<open>(1,2)\<close>, with opacities \<open>8/15\<close>, \<open>4/75\<close> and \<open>8/25\<close>: rounded to three decimals, 0.533 at
  distance 50, 0.053 at distance 140 and 0.320 at distance 90. With \<^verbatim>\<open>lineDistance = 40\<close>
  no edge is drawn.
\<close>

theorem collinear_edges:
  assumes "particles s = [a, b, c]"
    and "pair_distance a b = 50" and "pair_distance b c = 90" and "pair_distance a c = 140"
  shows "(lineDistance (options s) = 150 \<longrightarrow>
           ctx_log (connectParticles s (h\<lparr>ctx_log := []\<rparr>)) =
             [StrokeLine 0 1 (8/15) (js_or_num (lineWidth (options s)) (3/2)),
              StrokeLine 0 2 (4/75) (js_or_num (lineWidth (options s)) (3/2)),
              StrokeLine 1 2 (8/25) (js_or_num (lineWidth (options s)) (3/2))] \<and>
           map (\<lambda>e. round3 (alpha_of e)) (ctx_log (connectParticles s (h\<lparr>ctx_log := []\<rparr>))) =
             [533/1000, 53/1000, 320/1000]) \<and>
         (lineDistance (options s) = 40 \<longrightarrow>
           ctx_log (connectParticles s (h\<lparr>ctx_log := []\<rparr>)) = [])"
  using assms
  by (simp add: connectParticles_eq three_edges[OF assms(1)] pair_edge_def Let_def round3_def)

theorem collinear_edges_witness:
  "map (\<lambda>e. round3 (alpha_of e)) (ctx_log (connectParticles (line_system 150) (fresh_host\<lparr>ctx_log := []\<rparr>))) =
             [533/1000, 53/1000, 320/1000] \<and>
   ctx_log (connectParticles (line_system 40) (fresh_host\<lparr>ctx_log := []\<rparr>)) = []"
  using collinear_edges[OF line_system_particles line_system_distances, of 150 fresh_host]
    collinear_edges[OF line_system_particles line_system_distances, of 40 fresh_host]
  by (simp add: line_system_lineDistance round3_def)

text \<open>
  C3, as stated, fails: for the particles at \<open>x = 0, 50, 140\<close> on one line the rounded
  opacities are not 0.747, 0.520, 0.053, and neither 0.747 nor 0.520 occurs among them.
\<close>

theorem collinear_opacities_counterexample:
  "pair_distance (particle_at 0 0) (particle_at 50 0) = 50 \<and>
   pair_distance (particle_at 50 0) (particle_at 140 0) = 90 \<and>
   pair_distance (particle_at 0 0) (particle_at 140 0) = 140 \<and>
   lineDistance (options (line_system 150)) = 150 \<and>
   map (\<lambda>e. round3 (alpha_of e)) (ctx_log (connectParticles (line_system 150) fresh_host))
     \<noteq> [747/1000, 520/1000, 53/1000] \<and>
   747/1000 \<notin> set (map (\<lambda>e. round3 (alpha_of e)) (ctx_log (connectParticles (line_system 150) fresh_host))) \<and>
   520/1000 \<notin> set (map (\<lambda>e. round3 (alpha_of e)) (ctx_log (connectParticles (line_system 150) fresh_host)))"
proof -
  have "ctx_log (connectParticles (line_system 150) fresh_host) =
          pair_edge (line_system 150) 0 1 @ pair_edge (line_system 150) 0 2 @
          pair_edge (line_system 150) 1 2"
    by (simp add: connectParticles_eq three_edges[OF line_system_particles] fresh_host_def)
  then show ?thesis
    by (simp add: pair_edge_def Let_def line_system_particles line_system_lineDistance
        line_system_distances round3_def)
qed

subsection \<open>The integration step\<close>

lemma clamp_velocity_abs:
  "0 \<le> speed (options s) \<Longrightarrow>
   \<bar>vx (clamp_velocity s p)\<bar> \<le> 2 * speed (options s) \<and>
   \<bar>vy (clamp_velocity s p)\<bar> \<le> 2 * speed (options s)"
  by (simp add: clamp_velocity_def Let_def) linarith

lemma boundary_collision_vel:
  "\<bar>vx (boundary_collision s p)\<bar> = \<bar>vx p\<bar> \<and> \<bar>vy (boundary_collision s p)\<bar> = \<bar>vy p\<bar>"
  by (simp add: boundary_collision_def Let_def)

lemma boundary_collision_pos:
  "0 \<le> canvas_width s \<Longrightarrow> 0 \<le> canvas_height s \<Longrightarrow>
   0 \<le> p_x (boundary_collision s p) \<and> p_x (boundary_collision s p) \<le> canvas_width s \<and>
   0 \<le> p_y (boundary_collision s p) \<and> p_y (boundary_collision s p) \<le> canvas_height s"
  by (simp add: boundary_collision_def Let_def)

lemma update_eq:
  "update s p h =
     (boundary_collision s (clamp_velocity s
        (random_velocity (rand_seq h (rand_used h)) (rand_seq h (Suc (rand_used h)))
           (apply_velocity (mouse_interaction s p)))),
      h\<lparr>rand_used := Suc (Suc (rand_used h))\<rparr>)"
  by (simp add: update_def Math_random_def)

lemma update_in_bounds:
  assumes "0 \<le> canvas_width s" "0 \<le> canvas_height s" "0 \<le> speed (options s)"
  shows "in_bounds s (fst (update s p h))"
  unfolding in_bounds_def update_eq fst_conv
  using boundary_collision_pos[OF assms(1,2)] boundary_collision_vel[of s]
      clamp_velocity_abs[OF assms(3)]
  by presburger

lemma mouse_interaction_originalRadius:
  "originalRadius (mouse_interaction s p) = originalRadius p"
  by (simp add: mouse_interaction_def Let_def split: option.splits)

lemma boundary_collision_radii:
  "originalRadius (boundary_collision s p) = originalRadius p \<and>
   radius (boundary_collision s p) = radius p"
  by (simp add: boundary_collision_def Let_def)

lemma motion_radii:
  "originalRadius (clamp_velocity s (random_velocity r1 r2 (apply_velocity p))) = originalRadius p \<and>
   radius (clamp_velocity s (random_velocity r1 r2 (apply_velocity p))) = radius p"
  by (simp add: clamp_velocity_def random_velocity_def apply_velocity_def Let_def)

lemma update_originalRadius: "originalRadius (fst (update s p h)) = originalRadius p"
  by (simp only: update_eq fst_conv boundary_collision_radii motion_radii
      mouse_interaction_originalRadius)

lemma update_radius: "radius (fst (update s p h)) = radius (mouse_interaction s p)"
  by (simp only: update_eq fst_conv boundary_collision_radii motion_radii)

lemma update_all_host: "same_schedule h (snd (update_all s ps h))"
proof (induction ps arbitrary: h)
  case Nil
  show ?case by (simp add: same_schedule_def)
next
  case (Cons p ps)
  obtain p' h1 where u: "update s p h = (p', h1)" by (cases "update s p h")
  then have h1: "h1 = h\<lparr>rand_used := Suc (Suc (rand_used h))\<rparr>" by (simp add: update_eq)
  obtain ps' h2 where r: "update_all s ps (draw s p' h1) = (ps', h2)"
    by (cases "update_all s ps (draw s p' h1)")
  have "same_schedule (draw s p' h1) h2" using Cons.IH[of "draw s p' h1"] r by simp
  moreover have "same_schedule h (draw s p' h1)"
    by (simp add: same_schedule_def draw_def h1)
  ultimately show ?case using u r by (simp add: same_schedule_def)
qed

lemma update_all_originalRadius:
  "map originalRadius (fst (update_all s ps h)) = map originalRadius ps"
proof (induction ps arbitrary: h)
  case Nil
  show ?case by simp
next
  case (Cons p ps)
  obtain p' h1 where u: "update s p h = (p', h1)" by (cases "update s p h")
  obtain ps' h2 where r: "update_all s ps (draw s p' h1) = (ps', h2)"
    by (cases "update_all s ps (draw s p' h1)")
  have "originalRadius p' = originalRadius p" using update_originalRadius[of s p h] u by simp
  moreover have "map originalRadius ps' = map originalRadius ps"
    using Cons.IH[of "draw s p' h1"] r by simp
  ultimately show ?case using u r by simp
qed

lemma update_all_length: "length (fst (update_all s ps h)) = length ps"
  using update_all_originalRadius[of s ps h] by (rule map_eq_imp_length_eq)

lemma update_all_in_bounds:
  assumes "0 \<le> canvas_width s" "0 \<le> canvas_height s" "0 \<le> speed (options s)"
  shows "list_all (in_bounds s) (fst (update_all s ps h))"
proof (induction ps arbitrary: h)
  case Nil
  show ?case by simp
next
  case (Cons p ps)
  obtain p' h1 where u: "update s p h = (p', h1)" by (cases "update s p h")
  obtain ps' h2 where r: "update_all s ps (draw s p' h1) = (ps', h2)"
    by (cases "update_all s ps (draw s p' h1)")
  have "in_bounds s p'" using update_in_bounds[OF assms, of p h] u by simp
  moreover have "list_all (in_bounds s) ps'" using Cons.IH[of "draw s p' h1"] r by simp
  ultimately show ?case using u r by simp
qed

lemma animate_running:
  assumes "isRunning s"
  shows "\<exists>ps h2. update_all s (particles s)
            (h\<lparr>ctx_log := ctx_log h @ [ClearRect 0 0 (canvas_width s) (canvas_height s)]\<rparr>) = (ps, h2) \<and>
          animate s h =
            (s\<lparr>particles := ps, animationId := Some (Suc (last_frame h))\<rparr>,
             h2\<lparr>ctx_log := ctx_log h2 @ proximity_edges (s\<lparr>particles := ps\<rparr>),
                frames := frames h @ [Suc (last_frame h)], last_frame := Suc (last_frame h)\<rparr>)"
proof -
  let ?h1 = "h\<lparr>ctx_log := ctx_log h @ [ClearRect 0 0 (canvas_width s) (canvas_height s)]\<rparr>"
  obtain ps h2 where u: "update_all s (particles s) ?h1 = (ps, h2)"
    by (cases "update_all s (particles s) ?h1")
  have "same_schedule ?h1 h2" using update_all_host[of ?h1 s "particles s"] u by simp
  then have "frames h2 = frames h" "last_frame h2 = last_frame h"
    by (simp_all add: same_schedule_def)
  then show ?thesis
    using assms u
    by (simp add: animate_def Let_def connectParticles_eq requestAnimationFrame_def)
qed

lemma animate_stopped: "\<not> isRunning s \<Longrightarrow> animate s h = (s, h)"
  by (simp add: animate_def)

lemma line_system_speed: "speed (options (line_system d)) = 1/2"
  by (simp add: line_system_def resolve_options_def no_options_def spread_def js_or_num_def)

lemma line_system_canvas: "canvas_width (line_system d) = 800" "canvas_height (line_system d) = 600"
  by (simp_all add: line_system_def)

text \<open>
  C6. After a complete \<^verbatim>\<open>update()\<close>, whatever the pointer state and the random numbers, the
  particle is on the canvas, \<open>0 \<le> x \<le> width\<close> and \<open>0 \<le> y \<le> height\<close>, and
  \<open>|vx| \<le> 2 * speed\<close>, \<open>|vy| \<le> 2 * speed\<close>: the reflection at the border negates the clamped
  velocity and keeps its magnitude. So every particle is within these bounds after a
  tick. The canvas size and the speed are non-negative, as sizes and magnitudes are.
\<close>

theorem update_stays_in_bounds:
  assumes "0 \<le> canvas_width s" and "0 \<le> canvas_height s" and "0 \<le> speed (options s)"
  shows "in_bounds s (fst (update s p h)) \<and>
         (isRunning s \<longrightarrow> list_all (in_bounds s) (particles (fst (animate s h)))) \<and>
         \<bar>vx (boundary_collision s (clamp_velocity s q))\<bar> = \<bar>vx (clamp_velocity s q)\<bar> \<and>
         \<bar>vy (boundary_collision s (clamp_velocity s q))\<bar> = \<bar>vy (clamp_velocity s q)\<bar>"
proof -
  have "list_all (in_bounds s) (particles (fst (animate s h)))" if run: "isRunning s"
  proof -
    obtain ps h2 where
      u: "update_all s (particles s)
            (h\<lparr>ctx_log := ctx_log h @ [ClearRect 0 0 (canvas_width s) (canvas_height s)]\<rparr>) = (ps, h2)"
      and a: "particles (fst (animate s h)) = ps"
      using animate_running[OF run, of h] by auto
    show ?thesis
      using update_all_in_bounds[OF assms, of "particles s"
          "h\<lparr>ctx_log := ctx_log h @ [ClearRect 0 0 (canvas_width s) (canvas_height s)]\<rparr>"] u a
      by simp
  qed
  then show ?thesis
    using update_in_bounds[OF assms] boundary_collision_vel[of s "clamp_velocity s q"] by simp
qed

theorem update_stays_in_bounds_witness:
  "in_bounds ((line_system 150)\<lparr>isRunning := True\<rparr>)
     (fst (update ((line_system 150)\<lparr>isRunning := True\<rparr>) ((particle_at 790 0)\<lparr>vx := 50\<rparr>)
        fresh_host)) \<and>
   list_all (in_bounds ((line_system 150)\<lparr>isRunning := True\<rparr>))
     (particles (fst (animate ((line_system 150)\<lparr>isRunning := True\<rparr>) fresh_host)))"
  using update_stays_in_bounds[of "(line_system 150)\<lparr>isRunning := True\<rparr>"
      "(particle_at 790 0)\<lparr>vx := 50\<rparr>" fresh_host "particle_at 0 0"]
  by (simp add: line_system_speed line_system_canvas)

subsection \<open>Pointer repulsion\<close>

lemma sqrt_ratio:
  assumes "x \<noteq> 0"
  shows "sqrt (1 + (y / x)\<^sup>2) = sqrt (x * x + y * y) / \<bar>x\<bar>"
proof -
  have "1 + (y / x)\<^sup>2 = (x * x + y * y) / (x * x)"
    using assms by (simp add: power2_eq_square field_simps)
  then show ?thesis by (simp add: real_sqrt_divide)
qed

lemma cos_atan2:
  assumes "x \<noteq> 0 \<or> y \<noteq> 0"
  shows "cos (atan2 y x) = x / sqrt (x * x + y * y)"
proof -
  consider "0 < x" | "x < 0" | "x = 0" "0 < y" | "x = 0" "y < 0"
    using assms by linarith
  then show ?thesis
  proof cases
    case 1
    then show ?thesis by (simp add: atan2_def cos_arctan sqrt_ratio)
  next
    case 2
    then show ?thesis by (simp add: atan2_def cos_arctan sqrt_ratio)
  next
    case 3
    then show ?thesis by (simp add: atan2_def)
  next
    case 4
    then show ?thesis by (simp add: atan2_def)
  qed
qed

lemma sin_atan2:
  assumes "x \<noteq> 0 \<or> y \<noteq> 0"
  shows "sin (atan2 y x) = y / sqrt (x * x + y * y)"
proof -
  consider "0 < x" | "x < 0" | "x = 0" "0 < y" | "x = 0" "y < 0"
    using assms by linarith
  then show ?thesis
  proof cases
    case 1
    then show ?thesis by (simp add: atan2_def sin_arctan sqrt_ratio)
  next
    case 2
    then show ?thesis by (simp add: atan2_def sin_arctan sqrt_ratio)
  next
    case 3
    then show ?thesis by (simp add: atan2_def)
  next
    case 4
    then show ?thesis by (simp add: atan2_def)
  qed
qed

lemma mouse_interaction_near:
  assumes "mouseInteraction (options s)" and "m_x (mouse s) = Some mx" and "m_y (mouse s) = Some my"
    and "sqrt ((p_x p - mx) * (p_x p - mx) + (p_y p - my) * (p_y p - my)) < m_radius (mouse s)"
  shows "mouse_interaction s p =
           p\<lparr> vx := vx p + cos (atan2 (p_y p - my) (p_x p - mx)) *
                   ((m_radius (mouse s) -
                     sqrt ((p_x p - mx) * (p_x p - mx) + (p_y p - my) * (p_y p - my))) /
                    m_radius (mouse s)) * (1/2),
              vy := vy p + sin (atan2 (p_y p - my) (p_x p - mx)) *
                   ((m_radius (mouse s) -
                     sqrt ((p_x p - mx) * (p_x p - mx) + (p_y p - my) * (p_y p - my))) /
                    m_radius (mouse s)) * (1/2),
              radius := originalRadius p *
                   (1 + (m_radius (mouse s) -
                     sqrt ((p_x p - mx) * (p_x p - mx) + (p_y p - my) * (p_y p - my))) /
                    m_radius (mouse s)) \<rparr>"
  using assms unfolding mouse_interaction_def Let_def by (simp only: option.case if_True if_False simp_thms)

lemma update_p_x_inside:
  assumes "0 \<le> p_x q + vx q" and "p_x q + vx q \<le> canvas_width s"
    and "q = mouse_interaction s p"
  shows "p_x (fst (update s p h)) = p_x q + vx q"
  using assms
  by (simp add: update_eq boundary_collision_def clamp_velocity_def random_velocity_def
      apply_velocity_def Let_def)

text \<open>
  C8. With \<^verbatim>\<open>mouseInteraction\<close> on and the pointer present at distance \<open>d < mouseRadius\<close>
  of the particle, the first block of \<^verbatim>\<open>update()\<close> adds \<open>force * 0.5 * cos angle\<close> to \<open>vx\<close>
  and \<open>force * 0.5 * sin angle\<close> to \<open>vy\<close>, where \<open>force = (mouseRadius - d) / mouseRadius\<close> is
  in \<open>(0, 1]\<close> and \<open>angle = atan2 dy dx\<close>; for \<open>d > 0\<close> the direction \<open>(cos angle, sin angle)\<close>
  is the unit vector from the pointer to the particle. The step leaves
  \<open>radius = originalRadius * (1 + force)\<close>, and the position moves by the velocity with
  the increment in it (stated for a particle that stays between the left and right
  borders). \<^verbatim>\<open>mouse.radius\<close> is \<^verbatim>\<open>mouseRadius\<close>, as the constructor sets it.
\<close>

theorem pointer_repulsion:
  assumes "mouseInteraction (options s)"
    and "m_x (mouse s) = Some mx" and "m_y (mouse s) = Some my"
    and "m_radius (mouse s) = mouseRadius (options s)"
    and "d = sqrt ((p_x p - mx) * (p_x p - mx) + (p_y p - my) * (p_y p - my))"
    and "d < mouseRadius (options s)"
    and "force = (mouseRadius (options s) - d) / mouseRadius (options s)"
    and "angle = atan2 (p_y p - my) (p_x p - mx)"
  shows "0 < force \<and> force \<le> 1 \<and>
         vx (mouse_interaction s p) = vx p + force * (1/2) * cos angle \<and>
         vy (mouse_interaction s p) = vy p + force * (1/2) * sin angle \<and>
         radius (mouse_interaction s p) = originalRadius p * (1 + force) \<and>
         radius (fst (update s p h)) = originalRadius p * (1 + force) \<and>
         (0 < d \<longrightarrow> cos angle = (p_x p - mx) / d \<and> sin angle = (p_y p - my) / d) \<and>
         (0 \<le> p_x p + (vx p + force * (1/2) * cos angle) \<and>
          p_x p + (vx p + force * (1/2) * cos angle) \<le> canvas_width s \<longrightarrow>
            p_x (fst (update s p h)) = p_x p + (vx p + force * (1/2) * cos angle))"
proof -
  have d0: "0 \<le> d" using assms(5) by simp
  then have R: "0 < mouseRadius (options s)" using assms(6) by linarith
  have f: "0 < force" "force \<le> 1"
    using d0 R assms(6) unfolding assms(7) by (simp_all add: field_simps)
  have near: "sqrt ((p_x p - mx) * (p_x p - mx) + (p_y p - my) * (p_y p - my)) < m_radius (mouse s)"
    using assms(4,5,6) by simp
  note mi = mouse_interaction_near[OF assms(1,2,3) near]
  have v: "vx (mouse_interaction s p) = vx p + force * (1/2) * cos angle"
    "vy (mouse_interaction s p) = vy p + force * (1/2) * sin angle"
    "radius (mouse_interaction s p) = originalRadius p * (1 + force)"
    "p_x (mouse_interaction s p) = p_x p"
    unfolding mi assms(7,8) assms(5) assms(4)[symmetric] by simp_all
  have dir: "cos angle = (p_x p - mx) / d \<and> sin angle = (p_y p - my) / d" if "0 < d"
  proof -
    have "p_x p - mx \<noteq> 0 \<or> p_y p - my \<noteq> 0"
      using that unfolding assms(5) by auto
    then show ?thesis unfolding assms(8) assms(5) by (simp add: cos_atan2 sin_atan2)
  qed
  have pos: "p_x (fst (update s p h)) = p_x p + (vx p + force * (1/2) * cos angle)"
    if "0 \<le> p_x p + (vx p + force * (1/2) * cos angle)"
      "p_x p + (vx p + force * (1/2) * cos angle) \<le> canvas_width s"
    using update_p_x_inside[of "mouse_interaction s p" s p h] that v by simp
  show ?thesis
    using f v(1,2,3) dir pos by (simp add: update_radius)
qed

lemma sqrt_25: "sqrt (3 * 3 + 4 * 4) = 5"
  by (rule real_sqrt_unique) simp_all

lemma pointer_system_fields:
  "mouseInteraction (options pointer_system)" "m_x (mouse pointer_system) = Some 0"
  "m_y (mouse pointer_system) = Some 0" "m_radius (mouse pointer_system) = 200"
  "mouseRadius (options pointer_system) = 200" "canvas_width pointer_system = 800"
  by (simp_all add: pointer_system_def line_system_def resolve_options_def no_options_def
      spread_def js_or_num_def)

theorem pointer_repulsion_witness:
  "vx (mouse_interaction pointer_system (particle_at 3 4)) = 117/400 \<and>
   vy (mouse_interaction pointer_system (particle_at 3 4)) = 39/100 \<and>
   radius (fst (update pointer_system (particle_at 3 4) fresh_host)) = 79/20 \<and>
   p_x (fst (update pointer_system (particle_at 3 4) fresh_host)) = 3 + 117/400"
proof -
  have d: "(5::real) = sqrt ((p_x (particle_at 3 4) - 0) * (p_x (particle_at 3 4) - 0) +
             (p_y (particle_at 3 4) - 0) * (p_y (particle_at 3 4) - 0))"
    using sqrt_25 by (simp add: particle_at_def)
  have a: "atan2 4 3 = atan2 (p_y (particle_at 3 4) - 0) (p_x (particle_at 3 4) - 0)"
    by (simp add: particle_at_def)
  have f: "(39/40::real) = (mouseRadius (options pointer_system) - 5) / mouseRadius (options pointer_system)"
    by (simp add: pointer_system_fields)
  have lt: "(5::real) < mouseRadius (options pointer_system)" by (simp add: pointer_system_fields)
  have m: "m_radius (mouse pointer_system) = mouseRadius (options pointer_system)"
    by (simp add: pointer_system_fields)
  show ?thesis
    using pointer_repulsion[OF pointer_system_fields(1,2,3) m d lt f a, of fresh_host]
    by (simp add: particle_at_def pointer_system_fields)
qed

subsection \<open>Ticks, start and stop\<close>

lemma update_all_log: "\<exists>l. ctx_log (snd (update_all s ps h)) = ctx_log h @ l"
proof (induction ps arbitrary: h)
  case Nil
  show ?case by simp
next
  case (Cons p ps)
  obtain p' h1 where u: "update s p h = (p', h1)" by (cases "update s p h")
  then have h1: "h1 = h\<lparr>rand_used := Suc (Suc (rand_used h))\<rparr>" by (simp add: update_eq)
  obtain ps' h2 where r: "update_all s ps (draw s p' h1) = (ps', h2)"
    by (cases "update_all s ps (draw s p' h1)")
  obtain l where "ctx_log h2 = ctx_log (draw s p' h1) @ l"
    using Cons.IH[of "draw s p' h1"] r by auto
  moreover obtain l' where "ctx_log (draw s p' h1) = ctx_log h @ l'"
    by (cases "showParticles (options s) = Some False") (simp_all add: draw_def h1)
  ultimately show ?case using u r by simp
qed

lemma animate_system:
  "options (fst (animate s h)) = options s \<and> mouse (fst (animate s h)) = mouse s \<and>
   canvas_width (fst (animate s h)) = canvas_width s \<and>
   canvas_height (fst (animate s h)) = canvas_height s \<and>
   isRunning (fst (animate s h)) = isRunning s \<and>
   map originalRadius (particles (fst (animate s h))) = map originalRadius (particles s)"
proof (cases "isRunning s")
  case True
  obtain ps h2 where
    u: "update_all s (particles s)
          (h\<lparr>ctx_log := ctx_log h @ [ClearRect 0 0 (canvas_width s) (canvas_height s)]\<rparr>) = (ps, h2)"
    and a: "animate s h =
            (s\<lparr>particles := ps, animationId := Some (Suc (last_frame h))\<rparr>,
             h2\<lparr>ctx_log := ctx_log h2 @ proximity_edges (s\<lparr>particles := ps\<rparr>),
                frames := frames h @ [Suc (last_frame h)], last_frame := Suc (last_frame h)\<rparr>)"
    using animate_running[OF True, of h] by auto
  have "map originalRadius ps = map originalRadius (particles s)"
    using update_all_originalRadius[of s "particles s"
        "h\<lparr>ctx_log := ctx_log h @ [ClearRect 0 0 (canvas_width s) (canvas_height s)]\<rparr>"] u
    by simp
  then show ?thesis using True by (simp add: a)
next
  case False
  then show ?thesis by (simp add: animate_stopped)
qed

lemma animate_host:
  assumes "isRunning s"
  shows "animationId (fst (animate s h)) = Some (Suc (last_frame h)) \<and>
         frames (snd (animate s h)) = frames h @ [Suc (last_frame h)] \<and>
         last_frame (snd (animate s h)) = Suc (last_frame h) \<and>
         doc_hidden (snd (animate s h)) = doc_hidden h \<and>
         in_view (snd (animate s h)) = in_view h \<and>
         container (snd (animate s h)) = container h \<and>
         resize_timer (snd (animate s h)) = resize_timer h \<and>
         rand_seq (snd (animate s h)) = rand_seq h \<and>
         (\<exists>l. ctx_log (snd (animate s h)) =
                ctx_log h @ ClearRect 0 0 (canvas_width s) (canvas_height s) # l)"
proof -
  let ?h1 = "h\<lparr>ctx_log := ctx_log h @ [ClearRect 0 0 (canvas_width s) (canvas_height s)]\<rparr>"
  obtain ps h2 where
    u: "update_all s (particles s) ?h1 = (ps, h2)"
    and a: "animate s h =
            (s\<lparr>particles := ps, animationId := Some (Suc (last_frame h))\<rparr>,
             h2\<lparr>ctx_log := ctx_log h2 @ proximity_edges (s\<lparr>particles := ps\<rparr>),
                frames := frames h @ [Suc (last_frame h)], last_frame := Suc (last_frame h)\<rparr>)"
    using animate_running[OF assms, of h] by auto
  have sch: "same_schedule ?h1 h2" using update_all_host[of ?h1 s "particles s"] u by simp
  obtain l where l: "ctx_log h2 = ctx_log ?h1 @ l"
    using update_all_log[of s "particles s" ?h1] u by auto
  show ?thesis using sch l by (simp add: a same_schedule_def)
qed

lemma start_running: "isRunning (fst (start s h))"
  using animate_system[of "s\<lparr>isRunning := True\<rparr>" h] by (simp add: start_def)

lemma start_system:
  "options (fst (start s h)) = options s \<and> mouse (fst (start s h)) = mouse s \<and>
   canvas_width (fst (start s h)) = canvas_width s \<and>
   canvas_height (fst (start s h)) = canvas_height s \<and>
   map originalRadius (particles (fst (start s h))) = map originalRadius (particles s)"
  using animate_system[of "s\<lparr>isRunning := True\<rparr>" h] by (simp add: start_def)

lemma stop_system:
  "options (fst (stop s h)) = options s \<and> mouse (fst (stop s h)) = mouse s \<and>
   canvas_width (fst (stop s h)) = canvas_width s \<and>
   canvas_height (fst (stop s h)) = canvas_height s \<and>
   particles (fst (stop s h)) = particles s \<and> \<not> isRunning (fst (stop s h))"
  by (simp add: stop_def Let_def split: option.splits)

lemma stop_host:
  "ctx_log (snd (stop s h)) = ctx_log h \<and> doc_hidden (snd (stop s h)) = doc_hidden h \<and>
   in_view (snd (stop s h)) = in_view h \<and> last_frame (snd (stop s h)) = last_frame h"
  by (simp add: stop_def Let_def cancelAnimationFrame_def split: option.splits)

lemma start_scheduled:
  assumes "scheduled s h"
  shows "scheduled (fst (start s h)) (snd (start s h))"
proof (cases "isRunning s")
  case True
  then show ?thesis using assms by (simp add: start_def)
next
  case False
  then have "frames h = []" using assms by (simp add: scheduled_def)
  then show ?thesis
    using False animate_host[of "s\<lparr>isRunning := True\<rparr>" h]
      animate_system[of "s\<lparr>isRunning := True\<rparr>" h]
    by (simp add: start_def scheduled_def)
qed

lemma stop_scheduled:
  assumes "scheduled s h"
  shows "scheduled (fst (stop s h)) (snd (stop s h)) \<and> \<not> isRunning (fst (stop s h)) \<and>
         animationId (fst (stop s h)) = None \<and> frames (snd (stop s h)) = []"
  using assms
  by (cases "isRunning s")
    (auto simp: scheduled_def stop_def Let_def cancelAnimationFrame_def split: option.splits)

lemma start_from_stopped:
  assumes "scheduled s h" and "\<not> isRunning s"
  shows "isRunning (fst (start s h)) \<and>
         animationId (fst (start s h)) = Some (Suc (last_frame h)) \<and>
         frames (snd (start s h)) = [Suc (last_frame h)] \<and>
         doc_hidden (snd (start s h)) = doc_hidden h \<and> in_view (snd (start s h)) = in_view h \<and>
         (\<exists>l. ctx_log (snd (start s h)) =
                ctx_log h @ ClearRect 0 0 (canvas_width s) (canvas_height s) # l)"
proof -
  have "frames h = []" using assms by (simp add: scheduled_def)
  then show ?thesis
    using assms(2) animate_host[of "s\<lparr>isRunning := True\<rparr>" h] start_running[of s h]
    by (simp add: start_def)
qed

subsection \<open>Events\<close>

lemma stop_stopped:
  assumes "scheduled s h" and "\<not> isRunning s"
  shows "stop s h = (s, h)"
  using assms by (simp add: stop_def scheduled_def Let_def)

lemma observe_entries_scheduled:
  "scheduled s h \<Longrightarrow>
   scheduled (fst (observe_entries bs s h)) (snd (observe_entries bs s h))"
proof (induction bs arbitrary: s h)
  case Nil
  then show ?case by simp
next
  case (Cons b bs)
  obtain s' h' where st: "(if b then start s h else stop s h) = (s', h')"
    by (cases "if b then start s h else stop s h")
  have "scheduled s' h'"
    using start_scheduled[OF Cons.prems] stop_scheduled[OF Cons.prems] st
    by (cases b) simp_all
  then show ?case using Cons.IH[of s' h'] st by simp
qed

lemma observe_entries_system:
  "options (fst (observe_entries bs s h)) = options s \<and>
   mouse (fst (observe_entries bs s h)) = mouse s \<and>
   canvas_width (fst (observe_entries bs s h)) = canvas_width s \<and>
   canvas_height (fst (observe_entries bs s h)) = canvas_height s \<and>
   map originalRadius (particles (fst (observe_entries bs s h))) = map originalRadius (particles s)"
proof (induction bs arbitrary: s h)
  case Nil
  show ?case by simp
next
  case (Cons b bs)
  obtain s' h' where st: "(if b then start s h else stop s h) = (s', h')"
    by (cases "if b then start s h else stop s h")
  have "options s' = options s \<and> mouse s' = mouse s \<and> canvas_width s' = canvas_width s \<and>
        canvas_height s' = canvas_height s \<and>
        map originalRadius (particles s') = map originalRadius (particles s)"
    using start_system[of s h] stop_system[of s h] st by (cases b) simp_all
  then show ?case using Cons.IH[of s' h'] st by simp
qed

lemma observe_entries_last:
  "bs \<noteq> [] \<Longrightarrow> isRunning (fst (observe_entries bs s h)) = last bs"
proof (induction bs arbitrary: s h)
  case Nil
  then show ?case by simp
next
  case (Cons b bs)
  obtain s' h' where st: "(if b then start s h else stop s h) = (s', h')"
    by (cases "if b then start s h else stop s h")
  have r: "isRunning s' = b"
    using start_running[of s h] stop_system[of s h] st by (cases b) simp_all
  show ?case
  proof (cases "bs = []")
    case True
    then show ?thesis using st r by simp
  next
    case False
    then show ?thesis using Cons.IH[OF False, of s' h'] st by simp
  qed
qed

lemma observe_entries_quiet:
  "scheduled s h \<Longrightarrow> \<not> isRunning s \<Longrightarrow> True \<notin> set bs \<Longrightarrow> observe_entries bs s h = (s, h)"
  by (induction bs) (simp_all add: stop_stopped)

lemma new_Particle_host: "snd (new_Particle s h) = h\<lparr>rand_used := rand_used h + 5\<rparr>"
  by (simp add: new_Particle_def Math_random_def Let_def)

lemma create_loop_frame:
  "\<exists>ps n. create_loop s i h = (s\<lparr>particles := ps\<rparr>, h\<lparr>rand_used := n\<rparr>)"
proof (induction s i h rule: create_loop.induct)
  case (1 s i h)
  show ?case
  proof (cases "int i < particleCount (options s)")
    case True
    obtain p h' where ph: "new_Particle s h = (p, h')" by (cases "new_Particle s h")
    then have h': "h' = h\<lparr>rand_used := rand_used h + 5\<rparr>"
      using new_Particle_host[of s h] by simp
    obtain ps n where
      "create_loop (s\<lparr>particles := particles s @ [p]\<rparr>) (Suc i) h' =
         ((s\<lparr>particles := particles s @ [p]\<rparr>)\<lparr>particles := ps\<rparr>, h'\<lparr>rand_used := n\<rparr>)"
      using "1.IH"[OF True ph[symmetric]] by auto
    then have "create_loop s i h = (s\<lparr>particles := ps\<rparr>, h\<lparr>rand_used := n\<rparr>)"
      using True ph by (subst create_loop.simps) (simp add: h')
    then show ?thesis by blast
  next
    case False
    have "create_loop s i h = (s\<lparr>particles := particles s\<rparr>, h\<lparr>rand_used := rand_used h\<rparr>)"
      using False by (subst create_loop.simps) simp
    then show ?thesis by blast
  qed
qed

lemma createParticles_frame:
  "\<exists>ps n. createParticles s h = (s\<lparr>particles := ps\<rparr>, h\<lparr>rand_used := n\<rparr>)"
  using create_loop_frame[of "s\<lparr>particles := []\<rparr>" 0 h] by (auto simp: createParticles_def)

lemma scheduled_cong:
  "frames h' = frames h \<Longrightarrow> last_frame h' = last_frame h \<Longrightarrow> isRunning s' = isRunning s \<Longrightarrow>
   animationId s' = animationId s \<Longrightarrow> scheduled s' h' = scheduled s h"
  by (simp add: scheduled_def split: option.splits)

lemma fire_scheduled:
  assumes "scheduled s h"
  shows "scheduled (fst (fire e s h)) (snd (fire e s h))"
proof (cases e)
  case (WindowResize w ht)
  then show ?thesis
    using assms scheduled_cong[of "h\<lparr>container := (w, ht), resize_timer := True\<rparr>" h s s]
    by simp
next
  case ResizeTimeout
  obtain ps n where
    "createParticles (resize s h) (h\<lparr>resize_timer := False\<rparr>) =
       ((resize s h)\<lparr>particles := ps\<rparr>, h\<lparr>resize_timer := False, rand_used := n\<rparr>)"
    using createParticles_frame[of "resize s h" "h\<lparr>resize_timer := False\<rparr>"] by auto
  then show ?thesis
    using assms ResizeTimeout
      scheduled_cong[of "h\<lparr>resize_timer := False, rand_used := n\<rparr>" h
        "(resize s h)\<lparr>particles := ps\<rparr>" s]
    by (simp add: resize_def)
next
  case (MouseMove cx cy rl rt)
  then show ?thesis
    using assms
      scheduled_cong[of h h "s\<lparr>mouse := (mouse s)\<lparr>m_x := Some (cx - rl), m_y := Some (cy - rt)\<rparr>\<rparr>" s]
    by simp
next
  case MouseLeave
  then show ?thesis
    using assms scheduled_cong[of h h "s\<lparr>mouse := (mouse s)\<lparr>m_x := None, m_y := None\<rparr>\<rparr>" s]
    by simp
next
  case (VisibilityChange b)
  have "scheduled s (h\<lparr>doc_hidden := b\<rparr>)"
    using assms scheduled_cong[of "h\<lparr>doc_hidden := b\<rparr>" h s s] by simp
  then show ?thesis
    using VisibilityChange start_scheduled[of s "h\<lparr>doc_hidden := b\<rparr>"]
      stop_scheduled[of s "h\<lparr>doc_hidden := b\<rparr>"]
    by (cases b) (simp_all add: Let_def)
next
  case (Intersection bs)
  have "scheduled s (h\<lparr>in_view := (if bs = [] then in_view h else last bs)\<rparr>)"
    using assms
      scheduled_cong[of "h\<lparr>in_view := (if bs = [] then in_view h else last bs)\<rparr>" h s s]
    by simp
  then show ?thesis using Intersection observe_entries_scheduled by simp
next
  case (AnimationFrame k)
  show ?thesis
  proof (cases "k \<in> set (frames h)")
    case True
    then have run: "isRunning s" and fr: "frames h = [k]"
      using assms by (auto simp: scheduled_def split: if_splits option.splits)
    have la: "k \<le> last_frame h"
      using assms run fr by (auto simp: scheduled_def split: option.splits)
    show ?thesis
      using AnimationFrame True run fr
        animate_host[OF run, of "h\<lparr>frames := removeAll k (frames h)\<rparr>"]
        animate_system[of s "h\<lparr>frames := removeAll k (frames h)\<rparr>"]
      by (simp add: scheduled_def)
  next
    case False
    then show ?thesis using AnimationFrame assms by simp
  qed
qed

lemma fire_options: "options (fst (fire e s h)) = options s"
proof (cases e)
  case ResizeTimeout
  obtain ps n where
    "createParticles (resize s h) (h\<lparr>resize_timer := False\<rparr>) =
       ((resize s h)\<lparr>particles := ps\<rparr>, h\<lparr>resize_timer := False, rand_used := n\<rparr>)"
    using createParticles_frame[of "resize s h" "h\<lparr>resize_timer := False\<rparr>"] by auto
  then show ?thesis using ResizeTimeout by (simp add: resize_def)
next
  case (VisibilityChange b)
  then show ?thesis
    using start_system[of s "h\<lparr>doc_hidden := b\<rparr>"] stop_system[of s "h\<lparr>doc_hidden := b\<rparr>"]
    by (cases b) (simp_all add: Let_def)
next
  case (Intersection bs)
  then show ?thesis using observe_entries_system by simp
next
  case (AnimationFrame k)
  then show ?thesis using animate_system by simp
qed simp_all

lemma fire_originalRadius:
  assumes "e \<noteq> ResizeTimeout"
  shows "map originalRadius (particles (fst (fire e s h))) = map originalRadius (particles s)"
proof (cases e)
  case ResizeTimeout
  then show ?thesis using assms by simp
next
  case (VisibilityChange b)
  then show ?thesis
    using start_system[of s "h\<lparr>doc_hidden := b\<rparr>"] stop_system[of s "h\<lparr>doc_hidden := b\<rparr>"]
    by (cases b) (simp_all add: Let_def)
next
  case (Intersection bs)
  then show ?thesis using observe_entries_system by simp
next
  case (AnimationFrame k)
  then show ?thesis using animate_system by simp
qed simp_all

subsection \<open>The lifecycle\<close>

lemma init_live:
  assumes "frames h0 = []"
  shows "isRunning (fst (init s0 h0)) \<and>
         (\<not> isRunning s0 \<and> animationId s0 = None \<longrightarrow>
            scheduled (fst (init s0 h0)) (snd (init s0 h0)) \<and>
            (\<exists>l. ctx_log (snd (init s0 h0)) =
                   ctx_log h0 @ ClearRect 0 0 (fst (container h0)) (snd (container h0)) # l))"
proof -
  obtain ps n where
    c: "createParticles (resize s0 h0) h0 = ((resize s0 h0)\<lparr>particles := ps\<rparr>, h0\<lparr>rand_used := n\<rparr>)"
    using createParticles_frame[of "resize s0 h0" h0] by auto
  let ?s1 = "(resize s0 h0)\<lparr>particles := ps\<rparr>" and ?h1 = "h0\<lparr>rand_used := n\<rparr>"
  have i: "init s0 h0 = start ?s1 ?h1" by (simp add: init_def c)
  have "scheduled ?s1 ?h1 \<and> \<not> isRunning ?s1" if "\<not> isRunning s0" "animationId s0 = None"
    using that assms by (simp add: scheduled_def resize_def)
  then show ?thesis
    using start_from_stopped[of ?s1 ?h1] start_scheduled[of ?s1 ?h1] start_running[of ?s1 ?h1]
    by (auto simp: i resize_def)
qed

lemma new_ParticleSystem_live:
  assumes "frames h0 = []"
  shows "\<exists>s h. new_ParticleSystem (Some c) opts h0 = (Live s, h) \<and> isRunning s \<and> scheduled s h \<and>
           (\<exists>l. ctx_log h = ctx_log h0 @ ClearRect 0 0 (fst (container h0)) (snd (container h0)) # l)"
proof -
  obtain w ht where c: "c = (w, ht)" by (cases c)
  define s0 where "s0 =
     \<lparr> canvas_width = w, canvas_height = ht, particles = [],
       animationId = None, isRunning = False, options = resolve_options opts,
       mouse = \<lparr> m_x = None, m_y = None, m_radius = mouseRadius (resolve_options opts) \<rparr> \<rparr>"
  have n: "new_ParticleSystem (Some c) opts h0 = (Live (fst (init s0 h0)), snd (init s0 h0))"
    by (simp add: new_ParticleSystem_def c s0_def Let_def split: prod.splits)
  have "\<not> isRunning s0 \<and> animationId s0 = None" by (simp add: s0_def)
  then show ?thesis using init_live[OF assms, of s0] n by simp
qed

lemma fire_stop_signal:
  assumes "scheduled s h" and "stop_signal e"
  shows "\<not> isRunning (fst (fire e s h)) \<and> animationId (fst (fire e s h)) = None \<and>
         frames (snd (fire e s h)) = []"
proof -
  have sch: "scheduled (fst (fire e s h)) (snd (fire e s h))" by (rule fire_scheduled[OF assms(1)])
  have "\<not> isRunning (fst (fire e s h))"
  proof (cases e)
    case (VisibilityChange b)
    then show ?thesis using assms(2) stop_system[of s "h\<lparr>doc_hidden := True\<rparr>"] by simp
  next
    case (Intersection bs)
    then show ?thesis using assms(2) observe_entries_last[of bs] by simp
  qed (use assms(2) in simp_all)
  then show ?thesis using sch by (simp add: scheduled_def)
qed

lemma fire_quiet:
  assumes "scheduled s h" and "\<not> isRunning s" and "\<not> start_signal e"
  shows "\<not> isRunning (fst (fire e s h)) \<and> frames (snd (fire e s h)) = [] \<and>
         ctx_log (snd (fire e s h)) = ctx_log h"
proof -
  have fr: "frames h = []" using assms(1,2) by (simp add: scheduled_def)
  show ?thesis
  proof (cases e)
    case (WindowResize w ht)
    then show ?thesis using assms(2) fr by simp
  next
    case ResizeTimeout
    obtain ps n where
      "createParticles (resize s h) (h\<lparr>resize_timer := False\<rparr>) =
         ((resize s h)\<lparr>particles := ps\<rparr>, h\<lparr>resize_timer := False, rand_used := n\<rparr>)"
      using createParticles_frame[of "resize s h" "h\<lparr>resize_timer := False\<rparr>"] by auto
    then show ?thesis using ResizeTimeout assms(2) fr by (simp add: resize_def)
  next
    case (MouseMove cx cy rl rt)
    then show ?thesis using assms(2) fr by simp
  next
    case MouseLeave
    then show ?thesis using assms(2) fr by simp
  next
    case (VisibilityChange b)
    have "scheduled s (h\<lparr>doc_hidden := True\<rparr>)"
      using assms(1) scheduled_cong[of "h\<lparr>doc_hidden := True\<rparr>" h s s] by simp
    then show ?thesis
      using VisibilityChange assms(2,3) fr stop_stopped[of s "h\<lparr>doc_hidden := True\<rparr>"] by simp
  next
    case (Intersection bs)
    let ?h1 = "h\<lparr>in_view := (if bs = [] then in_view h else last bs)\<rparr>"
    have "scheduled s ?h1" using assms(1) scheduled_cong[of ?h1 h s s] by simp
    then have "observe_entries bs s ?h1 = (s, ?h1)"
      using observe_entries_quiet[of s ?h1 bs] assms(2,3) Intersection by simp
    then show ?thesis using Intersection assms(2) fr by simp
  next
    case (AnimationFrame k)
    then show ?thesis using assms(2) fr by simp
  qed
qed

lemma fire_visible_signal:
  assumes "scheduled s h" and "\<not> isRunning s" and "visible_signal e h"
  shows "isRunning (fst (fire e s h)) \<and>
         map Some (frames (snd (fire e s h))) = [animationId (fst (fire e s h))]"
proof -
  have sch: "scheduled (fst (fire e s h)) (snd (fire e s h))" by (rule fire_scheduled[OF assms(1)])
  have "isRunning (fst (fire e s h))"
  proof (cases e)
    case (VisibilityChange b)
    then show ?thesis using assms(3) start_running[of s "h\<lparr>doc_hidden := False\<rparr>"] by simp
  next
    case (Intersection bs)
    then show ?thesis using assms(3) observe_entries_last[of bs] by simp
  qed (use assms(3) in simp_all)
  then show ?thesis using sch by (auto simp: scheduled_def split: option.splits)
qed

lemma fire_frame:
  assumes "scheduled s h" and "isRunning s" and "animationId s = Some k"
  shows "isRunning (fst (fire (AnimationFrame k) s h)) \<and>
         frames (snd (fire (AnimationFrame k) s h)) = [Suc (last_frame h)] \<and>
         (\<exists>l. ctx_log (snd (fire (AnimationFrame k) s h)) =
                ctx_log h @ ClearRect 0 0 (canvas_width s) (canvas_height s) # l)"
proof -
  have fr: "frames h = [k]" using assms by (simp add: scheduled_def)
  show ?thesis
    using fr animate_host[OF assms(2), of "h\<lparr>frames := []\<rparr>"] animate_system[of s "h\<lparr>frames := []\<rparr>"]
      assms(2)
    by simp
qed

text \<open>
  C2, as amended. The running flag starts false and the constructor ends by calling
  \<^verbatim>\<open>start()\<close>: a created system is running, has made its first tick and has the next one
  requested, whatever the visibility signals. After that, for every event: the
  scheduling invariant is kept; after a page-hidden signal, or observer entries the last
  of which is not intersecting, the system is stopped, \<^verbatim>\<open>animationId\<close> is \<^verbatim>\<open>null\<close> and no
  frame callback is left requested; a stopped system stays stopped, with nothing drawn
  and nothing requested, under every event that is not a page-visible signal or an
  intersecting entry (so also when a cancelled frame fires); a stopped system that gets
  an intersecting last entry while the page is not hidden, or a page-visible signal
  while the surface is in view, is running afterwards with exactly one frame requested;
  and when the requested frame of a running system fires, a tick is made and the next
  frame is requested.
\<close>

theorem lifecycle:
  "(frames h0 = [] \<longrightarrow>
      (\<exists>s1 h1. new_ParticleSystem (Some c) opts h0 = (Live s1, h1) \<and> isRunning s1 \<and>
         scheduled s1 h1 \<and>
         (\<exists>l. ctx_log h1 = ctx_log h0 @ ClearRect 0 0 (fst (container h0)) (snd (container h0)) # l))) \<and>
   (scheduled s h \<longrightarrow>
      scheduled (fst (fire e s h)) (snd (fire e s h)) \<and>
      (stop_signal e \<longrightarrow>
         \<not> isRunning (fst (fire e s h)) \<and> animationId (fst (fire e s h)) = None \<and>
         frames (snd (fire e s h)) = []) \<and>
      (\<not> isRunning s \<and> \<not> start_signal e \<longrightarrow>
         \<not> isRunning (fst (fire e s h)) \<and> frames (snd (fire e s h)) = [] \<and>
         ctx_log (snd (fire e s h)) = ctx_log h) \<and>
      (\<not> isRunning s \<and> visible_signal e h \<longrightarrow>
         isRunning (fst (fire e s h)) \<and>
         map Some (frames (snd (fire e s h))) = [animationId (fst (fire e s h))]) \<and>
      (isRunning s \<and> animationId s = Some k \<longrightarrow>
         isRunning (fst (fire (AnimationFrame k) s h)) \<and>
         frames (snd (fire (AnimationFrame k) s h)) = [Suc (last_frame h)] \<and>
         (\<exists>l. ctx_log (snd (fire (AnimationFrame k) s h)) =
                ctx_log h @ ClearRect 0 0 (canvas_width s) (canvas_height s) # l)))"
  using new_ParticleSystem_live[of h0 c opts] fire_scheduled[of s h e] fire_stop_signal[of s h e]
    fire_quiet[of s h e] fire_visible_signal[of s h e] fire_frame[of s h k]
  by blast

lemma line_system_idle: "scheduled (line_system d) fresh_host" "\<not> isRunning (line_system d)"
  by (simp_all add: scheduled_def line_system_def fresh_host_def)

theorem lifecycle_witness:
  "handle_running (fst (new_ParticleSystem (Some (300, 150)) empty_options fresh_host)) \<and>
   isRunning (fst (fire (VisibilityChange False) (line_system 150) fresh_host)) \<and>
   \<not> isRunning (fst (fire (VisibilityChange True) (line_system 150) fresh_host)) \<and>
   frames (snd (fire (VisibilityChange True) (line_system 150) fresh_host)) = [] \<and>
   ctx_log (snd (fire (AnimationFrame 1) (line_system 150) fresh_host)) = ctx_log fresh_host"
proof -
  have v: "visible_signal (VisibilityChange False) fresh_host" by (simp add: fresh_host_def)
  have f: "frames fresh_host = []" by (simp add: fresh_host_def)
  have "\<exists>s1 h1. new_ParticleSystem (Some (300, 150)) empty_options fresh_host = (Live s1, h1) \<and>
          isRunning s1"
    using lifecycle[of fresh_host "(300, 150)" empty_options "line_system 150" fresh_host
        "VisibilityChange False"] f
    by blast
  then have c: "handle_running (fst (new_ParticleSystem (Some (300, 150)) empty_options fresh_host))"
    by auto
  have "stop_signal (VisibilityChange True)" "\<not> start_signal (AnimationFrame 1)" by simp_all
  then show ?thesis
    using lifecycle[of fresh_host _ _ "line_system 150" fresh_host "VisibilityChange False"]
      lifecycle[of fresh_host _ _ "line_system 150" fresh_host "VisibilityChange True"]
      lifecycle[of fresh_host _ _ "line_system 150" fresh_host "AnimationFrame 1"]
      line_system_idle[of 150] v c
    by blast
qed

lemma proximity_edges_empty: "particles s = [] \<Longrightarrow> proximity_edges s = []"
  by (simp add: proximity_edges_def)

lemma createParticles_zero:
  "particleCount (options s) = 0 \<Longrightarrow> createParticles s h = (s\<lparr>particles := []\<rparr>, h)"
  by (simp add: createParticles_def create_loop.simps)

lemma empty_options_count: "particleCount (resolve_options empty_options) = 0"
  by (simp add: empty_options_def resolve_options_particleCount no_options_def)

lemma animate_empty:
  "isRunning s \<Longrightarrow> particles s = [] \<Longrightarrow>
   animate s h =
     (s\<lparr>animationId := Some (Suc (last_frame h))\<rparr>,
      h\<lparr>ctx_log := ctx_log h @ [ClearRect 0 0 (canvas_width s) (canvas_height s)],
         frames := frames h @ [Suc (last_frame h)], last_frame := Suc (last_frame h)\<rparr>)"
  by (simp add: animate_def Let_def connectParticles_eq proximity_edges_empty
      requestAnimationFrame_def)

text \<open>
  C2, as stated, fails. A system constructed while the page is hidden and the canvas out
  of view is running all the same. And a system stopped because its canvas left the
  view, whose page is then hidden and shown again, is running although the canvas has
  not come back into view.
\<close>

theorem lifecycle_counterexample:
  "handle_running (fst (new_ParticleSystem (Some (300, 150)) empty_options offscreen_host)) \<and>
   doc_hidden (snd (new_ParticleSystem (Some (300, 150)) empty_options offscreen_host)) \<and>
   \<not> in_view (snd (new_ParticleSystem (Some (300, 150)) empty_options offscreen_host)) \<and>
   \<not> handle_running (fst (deliver [Intersection [False], VisibilityChange True]
        (new_ParticleSystem (Some (300, 150)) empty_options fresh_host))) \<and>
   handle_running (fst (deliver [Intersection [False], VisibilityChange True, VisibilityChange False]
        (new_ParticleSystem (Some (300, 150)) empty_options fresh_host))) \<and>
   \<not> in_view (snd (deliver [Intersection [False], VisibilityChange True, VisibilityChange False]
        (new_ParticleSystem (Some (300, 150)) empty_options fresh_host)))"
  by (simp add: new_ParticleSystem_def init_def resize_def createParticles_zero
      empty_options_count start_def stop_def animate_empty Let_def cancelAnimationFrame_def
      offscreen_host_def fresh_host_def)

subsection \<open>Pointer events without mouse interaction\<close>

lemma mouse_interaction_off: "\<not> mouseInteraction (options s) \<Longrightarrow> mouse_interaction s p = p"
  by (simp add: mouse_interaction_def split: option.splits)

lemma boundary_collision_agree:
  "same_but_mouse s t \<Longrightarrow> boundary_collision t p = boundary_collision s p"
  by (simp add: boundary_collision_def same_but_mouse_def)

lemma clamp_velocity_agree:
  "same_but_mouse s t \<Longrightarrow> clamp_velocity t p = clamp_velocity s p"
  by (simp add: clamp_velocity_def same_but_mouse_def)

lemma update_agree:
  assumes "same_but_mouse s t" and "\<not> mouseInteraction (options s)"
  shows "update t p h = update s p h"
proof -
  have "\<not> mouseInteraction (options t)" using assms by (simp add: same_but_mouse_def)
  then show ?thesis
    by (simp only: update_eq mouse_interaction_off assms(2) not_False_eq_True
        boundary_collision_agree[OF assms(1)] clamp_velocity_agree[OF assms(1)])
qed

lemma draw_agree: "same_but_mouse s t \<Longrightarrow> draw t p h = draw s p h"
  by (simp add: draw_def same_but_mouse_def)

lemma update_all_agree:
  assumes "same_but_mouse s t" and "\<not> mouseInteraction (options s)"
  shows "update_all t ps h = update_all s ps h"
  by (induction ps arbitrary: h)
    (simp_all add: update_agree[OF assms] draw_agree[OF assms(1)])

lemma proximity_edges_agree:
  assumes "particles t = particles s" and "options t = options s"
  shows "proximity_edges t = proximity_edges s"
proof -
  have "pair_edge t i = pair_edge s i" for i
    by (rule ext) (simp add: pair_edge_def assms cong: if_cong)
  then show ?thesis by (simp add: proximity_edges_def assms)
qed

lemma animate_agree:
  assumes "same_but_mouse s t" and "\<not> mouseInteraction (options s)"
  shows "same_but_mouse (fst (animate s h)) (fst (animate t h)) \<and>
         snd (animate t h) = snd (animate s h)"
proof (cases "isRunning s")
  case True
  then have rt: "isRunning t" using assms(1) by (simp add: same_but_mouse_def)
  let ?h1 = "h\<lparr>ctx_log := ctx_log h @ [ClearRect 0 0 (canvas_width s) (canvas_height s)]\<rparr>"
  have c: "canvas_width t = canvas_width s" "canvas_height t = canvas_height s"
    "particles t = particles s"
    using assms(1) by (simp_all add: same_but_mouse_def)
  obtain ps h2 where u: "update_all s (particles s) ?h1 = (ps, h2)"
    and a: "animate s h =
            (s\<lparr>particles := ps, animationId := Some (Suc (last_frame h))\<rparr>,
             h2\<lparr>ctx_log := ctx_log h2 @ proximity_edges (s\<lparr>particles := ps\<rparr>),
                frames := frames h @ [Suc (last_frame h)], last_frame := Suc (last_frame h)\<rparr>)"
    using animate_running[OF True, of h] by auto
  obtain ps' h2' where u': "update_all t (particles t) ?h1 = (ps', h2')"
    and a': "animate t h =
            (t\<lparr>particles := ps', animationId := Some (Suc (last_frame h))\<rparr>,
             h2'\<lparr>ctx_log := ctx_log h2' @ proximity_edges (t\<lparr>particles := ps'\<rparr>),
                frames := frames h @ [Suc (last_frame h)], last_frame := Suc (last_frame h)\<rparr>)"
    using animate_running[OF rt, of h] unfolding c by auto
  have eq: "ps' = ps" "h2' = h2"
    using u u' update_all_agree[OF assms, of "particles s" ?h1] c(3) by simp_all
  have pe: "proximity_edges (t\<lparr>particles := ps\<rparr>) = proximity_edges (s\<lparr>particles := ps\<rparr>)"
    using assms(1) by (intro proximity_edges_agree) (simp_all add: same_but_mouse_def)
  show ?thesis
    using assms(1) by (simp add: a a' eq pe same_but_mouse_def)
next
  case False
  then have "\<not> isRunning t" using assms(1) by (simp add: same_but_mouse_def)
  then show ?thesis using False assms(1) by (simp add: animate_stopped)
qed

lemma start_agree:
  assumes "same_but_mouse s t" and "\<not> mouseInteraction (options s)"
  shows "same_but_mouse (fst (start s h)) (fst (start t h)) \<and>
         snd (start t h) = snd (start s h)"
proof -
  have "same_but_mouse (s\<lparr>isRunning := True\<rparr>) (t\<lparr>isRunning := True\<rparr>)"
    using assms(1) by (simp add: same_but_mouse_def)
  then show ?thesis
    using animate_agree[of "s\<lparr>isRunning := True\<rparr>" "t\<lparr>isRunning := True\<rparr>" h] assms
    by (simp add: start_def same_but_mouse_def)
qed

lemma stop_agree:
  assumes "same_but_mouse s t"
  shows "same_but_mouse (fst (stop s h)) (fst (stop t h)) \<and> snd (stop t h) = snd (stop s h)"
  using assms by (simp add: stop_def Let_def same_but_mouse_def split: option.splits)

lemma observe_entries_agree:
  "same_but_mouse s t \<Longrightarrow> \<not> mouseInteraction (options s) \<Longrightarrow>
   same_but_mouse (fst (observe_entries bs s h)) (fst (observe_entries bs t h)) \<and>
   snd (observe_entries bs t h) = snd (observe_entries bs s h)"
proof (induction bs arbitrary: s t h)
  case Nil
  then show ?case by simp
next
  case (Cons b bs)
  obtain s' h' where st: "(if b then start s h else stop s h) = (s', h')"
    by (cases "if b then start s h else stop s h")
  obtain t' g' where tt: "(if b then start t h else stop t h) = (t', g')"
    by (cases "if b then start t h else stop t h")
  have o: "options s' = options s"
    using start_system[of s h] stop_system[of s h] st by (cases b) simp_all
  have "same_but_mouse s' t' \<and> g' = h'"
    using start_agree[OF Cons.prems, of h] stop_agree[OF Cons.prems(1), of h] st tt
    by (cases b) simp_all
  then show ?case using Cons.IH[of s' t' h'] Cons.prems(2) o st tt by simp
qed

lemma new_Particle_agree: "same_but_mouse s t \<Longrightarrow> new_Particle t h = new_Particle s h"
  by (simp add: new_Particle_def same_but_mouse_def)

lemma create_loop_agree:
  "same_but_mouse s t \<Longrightarrow>
   same_but_mouse (fst (create_loop s i h)) (fst (create_loop t i h)) \<and>
   snd (create_loop t i h) = snd (create_loop s i h)"
proof (induction s i h arbitrary: t rule: create_loop.induct)
  case (1 s i h)
  have o: "particleCount (options t) = particleCount (options s)"
    using "1.prems" by (simp add: same_but_mouse_def)
  show ?case
  proof (cases "int i < particleCount (options s)")
    case True
    obtain p h' where ph: "new_Particle s h = (p, h')" by (cases "new_Particle s h")
    then have pt: "new_Particle t h = (p, h')" using new_Particle_agree[OF "1.prems"] by simp
    have es: "create_loop s i h = create_loop (s\<lparr>particles := particles s @ [p]\<rparr>) (Suc i) h'"
      by (subst create_loop.simps) (simp add: True ph)
    have et: "create_loop t i h = create_loop (t\<lparr>particles := particles t @ [p]\<rparr>) (Suc i) h'"
      by (subst create_loop.simps) (simp add: True o pt)
    have "same_but_mouse (s\<lparr>particles := particles s @ [p]\<rparr>) (t\<lparr>particles := particles t @ [p]\<rparr>)"
      using "1.prems" by (simp add: same_but_mouse_def)
    then show ?thesis using "1.IH"[OF True ph[symmetric]] by (simp only: es et)
  next
    case False
    have "create_loop s i h = (s, h)" "create_loop t i h = (t, h)"
      using False o by (simp_all add: create_loop.simps)
    then show ?thesis using "1.prems" by simp
  qed
qed

lemma createParticles_agree:
  assumes "same_but_mouse s t"
  shows "same_but_mouse (fst (createParticles s h)) (fst (createParticles t h)) \<and>
         snd (createParticles t h) = snd (createParticles s h)"
proof -
  have "same_but_mouse (s\<lparr>particles := []\<rparr>) (t\<lparr>particles := []\<rparr>)"
    using assms by (simp add: same_but_mouse_def)
  then show ?thesis unfolding createParticles_def by (rule create_loop_agree)
qed

lemma fire_agree:
  assumes "same_but_mouse s t" and "\<not> mouseInteraction (options s)"
  shows "same_but_mouse (fst (fire e s h)) (fst (fire e t h)) \<and>
         snd (fire e t h) = snd (fire e s h)"
proof -
  have ot: "\<not> mouseInteraction (options t)" using assms by (simp add: same_but_mouse_def)
  show ?thesis
  proof (cases e)
    case (WindowResize w ht)
    then show ?thesis using assms(1) by simp
  next
    case ResizeTimeout
    have "same_but_mouse (resize s h) (resize t h)"
      using assms(1) by (simp add: resize_def same_but_mouse_def)
    then show ?thesis
      using ResizeTimeout assms(1) createParticles_agree[of "resize s h" "resize t h"]
      by simp
  next
    case (MouseMove cx cy rl rt)
    then show ?thesis using assms ot by simp
  next
    case MouseLeave
    then show ?thesis using assms ot by simp
  next
    case (VisibilityChange b)
    then show ?thesis
      using start_agree[OF assms, of "h\<lparr>doc_hidden := b\<rparr>"]
        stop_agree[OF assms(1), of "h\<lparr>doc_hidden := b\<rparr>"]
      by (cases b) (simp_all add: Let_def)
  next
    case (Intersection bs)
    then show ?thesis using observe_entries_agree[OF assms] by simp
  next
    case (AnimationFrame k)
    then show ?thesis using animate_agree[OF assms] assms(1) by simp
  qed
qed

lemma fire_pointer_off:
  "\<not> mouseInteraction (options s) \<Longrightarrow> pointer_event e \<Longrightarrow> fire e s h = (s, h)"
  by (cases e) simp_all

lemma run_agree:
  "same_but_mouse s t \<Longrightarrow> \<not> mouseInteraction (options s) \<Longrightarrow>
   same_but_mouse (fst (run es s h)) (fst (run es t h)) \<and> snd (run es t h) = snd (run es s h)"
proof (induction es arbitrary: s t h)
  case Nil
  then show ?case by simp
next
  case (Cons e es)
  obtain s' h' where f: "fire e s h = (s', h')" by (cases "fire e s h")
  obtain t' g' where g: "fire e t h = (t', g')" by (cases "fire e t h")
  have o: "options s' = options s" using fire_options[of e s h] f by simp
  have "same_but_mouse s' t' \<and> g' = h'" using fire_agree[OF Cons.prems, of e h] f g by simp
  then show ?case using Cons.IH[of s' t' h'] Cons.prems(2) o f g by simp
qed

lemma run_pointer_off:
  "\<not> mouseInteraction (options s) \<Longrightarrow>
   run es s h = run (filter (\<lambda>e. \<not> pointer_event e) es) s h"
proof (induction es arbitrary: s h)
  case Nil
  show ?case by simp
next
  case (Cons e es)
  show ?case
  proof (cases "pointer_event e")
    case True
    then show ?thesis using Cons.IH[OF Cons.prems] fire_pointer_off[OF Cons.prems True] by simp
  next
    case False
    obtain s' h' where f: "fire e s h = (s', h')" by (cases "fire e s h")
    have o: "options s' = options s" using fire_options[of e s h] f by simp
    show ?thesis using Cons.IH[of s' h'] Cons.prems o f False by simp
  qed
qed

text \<open>
  C9. With \<^verbatim>\<open>mouseInteraction\<close> off, take two systems that differ at most in their pointer
  state, the same browser (so the same random numbers), and two event sequences that
  are equal once the pointer events are removed. After both runs the particles are the
  same, in particular all velocities and radii, and so is everything that was drawn.
\<close>

theorem pointer_noninterference:
  assumes "\<not> mouseInteraction (options s)"
    and "same_but_mouse s t"
    and "filter (\<lambda>e. \<not> pointer_event e) es1 = filter (\<lambda>e. \<not> pointer_event e) es2"
  shows "particles (fst (run es1 s h)) = particles (fst (run es2 t h)) \<and>
         map vx (particles (fst (run es1 s h))) = map vx (particles (fst (run es2 t h))) \<and>
         map vy (particles (fst (run es1 s h))) = map vy (particles (fst (run es2 t h))) \<and>
         map radius (particles (fst (run es1 s h))) = map radius (particles (fst (run es2 t h))) \<and>
         ctx_log (snd (run es1 s h)) = ctx_log (snd (run es2 t h))"
proof -
  have "run es1 s h = run es2 s h"
    using run_pointer_off[OF assms(1), of es1 h] run_pointer_off[OF assms(1), of es2 h] assms(3)
    by simp
  then show ?thesis
    using run_agree[OF assms(2,1), of es2 h] by (simp add: same_but_mouse_def)
qed

theorem pointer_noninterference_witness:
  "particles (fst (run [MouseMove 1 2 0 0, VisibilityChange False, MouseLeave] still_system fresh_host)) =
   particles (fst (run [VisibilityChange False]
      (still_system\<lparr>mouse := \<lparr> m_x = Some 5, m_y = Some 5, m_radius = 200 \<rparr>\<rparr>) fresh_host))"
proof -
  have off: "\<not> mouseInteraction (options still_system)"
    by (simp add: still_system_def resolve_options_def no_options_def spread_def)
  have same: "same_but_mouse still_system
      (still_system\<lparr>mouse := \<lparr> m_x = Some 5, m_y = Some 5, m_radius = 200 \<rparr>\<rparr>)"
    by (simp add: same_but_mouse_def)
  have ev: "filter (\<lambda>e. \<not> pointer_event e) [MouseMove 1 2 0 0, VisibilityChange False, MouseLeave] =
            filter (\<lambda>e. \<not> pointer_event e) [VisibilityChange False]"
    by simp
  show ?thesis using pointer_noninterference[OF off same ev, of fresh_host] by simp
qed

subsection \<open>What a tick leaves unchanged\<close>

text \<open>
  C10. \<^verbatim>\<open>update()\<close> leaves \<^verbatim>\<open>originalRadius\<close> as it was; a tick keeps the number of
  particles and the \<^verbatim>\<open>originalRadius\<close> of each; so does every event except the expiry of
  the resize timer, which calls \<^verbatim>\<open>createParticles\<close>; and \<^verbatim>\<open>createParticles\<close> does not look
  at the collection it replaces.
\<close>

theorem tick_frame:
  "originalRadius (fst (update s p h)) = originalRadius p \<and>
   map originalRadius (particles (fst (animate s h))) = map originalRadius (particles s) \<and>
   length (particles (fst (animate s h))) = length (particles s) \<and>
   (\<forall>e. e \<noteq> ResizeTimeout \<longrightarrow>
      map originalRadius (particles (fst (fire e s h))) = map originalRadius (particles s) \<and>
      length (particles (fst (fire e s h))) = length (particles s)) \<and>
   (\<forall>ps. createParticles (s\<lparr>particles := ps\<rparr>) h = createParticles s h)"
proof -
  have a: "map originalRadius (particles (fst (animate s h))) = map originalRadius (particles s)"
    using animate_system[of s h] by simp
  have f: "map originalRadius (particles (fst (fire e s h))) = map originalRadius (particles s)"
    if "e \<noteq> ResizeTimeout" for e
    using that by (rule fire_originalRadius)
  have c: "createParticles (s\<lparr>particles := ps\<rparr>) h = createParticles s h" for ps
    by (simp add: createParticles_def)
  show ?thesis
    using update_originalRadius[of s p h] a map_eq_imp_length_eq[OF a] f
      map_eq_imp_length_eq[OF f] c
    by blast
qed

theorem tick_frame_witness:
  "length (particles (fst (fire (VisibilityChange False) (line_system 150) fresh_host))) = 3 \<and>
   map originalRadius (particles (fst (fire (AnimationFrame 1) (line_system 150) fresh_host))) = [2, 2, 2]"
  using tick_frame[of "line_system 150" "particle_at 0 0" fresh_host]
  by (simp del: fire.simps add: line_system_particles particle_at_def)

subsection \<open>The inert object\<close>

text \<open>
  C4 fails on the code. With no canvas the constructor returns an inert object without
  raising, and \<^verbatim>\<open>stop()\<close> on it does nothing; but the first \<^verbatim>\<open>start()\<close> sets \<^verbatim>\<open>isRunning\<close> and
  then throws a \<^verbatim>\<open>TypeError\<close> in \<^verbatim>\<open>animate()\<close>, and \<^verbatim>\<open>resize()\<close> throws a \<^verbatim>\<open>TypeError\<close>.
\<close>

theorem inert_handle_raises:
  "new_ParticleSystem None opts h = (Inert False, h) \<and>
   inert_start False = (Some TypeError, True) \<and>
   inert_resize False = (Some TypeError, False) \<and>
   inert_stop False = (None, False)"
  by (simp add: new_ParticleSystem_def inert_start_def inert_animate_def inert_resize_def
      inert_stop_def)

subsection \<open>Radius after the pointer has left\<close>

lemma single_options_resolved:
  "resolve_options single_options =
     \<lparr> particleCount = 1, particleColor = ''rgba(206, 66, 43, 0.6)'',
       lineColor = ''rgba(206, 66, 43, 0.15)'', particleRadius = 2, lineDistance = 150,
       speed = 1/2, mouseInteraction = True, mouseRadius = 200, showParticles = None,
       lineWidth = None \<rparr>"
  by (simp add: single_options_def no_options_def resolve_options_def spread_def js_or_int_def
      js_or_num_def js_or_str_def)

lemma proximity_edges_single: "particles s = [p] \<Longrightarrow> proximity_edges s = []"
  by (simp add: proximity_edges_def)

lemma atan2_origin: "atan2 0 0 = 0"
  by (simp add: atan2_def)

lemma single_start_eq:
  "single_start =
    (Live \<lparr> canvas_width = 800, canvas_height = 600,
        particles = [\<lparr> p_x = 400, p_y = 300, vx = 0, vy = 0, radius = 2, originalRadius = 2 \<rparr>],
        animationId = Some 1, isRunning = True, options = resolve_options single_options,
        mouse = \<lparr> m_x = None, m_y = None, m_radius = 200 \<rparr> \<rparr>,
     fresh_host\<lparr> rand_used := 7, frames := [1], last_frame := 1,
        ctx_log := [ClearRect 0 0 800 600,
                    FillArc 400 300 2 ''rgba(206, 66, 43, 0.6)''] \<rparr>)"
  by (simp add: single_start_def new_ParticleSystem_def single_options_resolved init_def resize_def
      createParticles_def create_loop.simps new_Particle_def Math_random_def start_def
      animate_def update_eq mouse_interaction_def apply_velocity_def random_velocity_def
      clamp_velocity_def boundary_collision_def draw_def connectParticles_eq
      proximity_edges_single requestAnimationFrame_def fresh_host_def Let_def)

text \<open>
  C5 fails on the code. One particle; the pointer moves onto it and a tick doubles its
  radius; the pointer leaves the canvas; after the next tick, with the pointer absent,
  the radius is still 4 while \<^verbatim>\<open>originalRadius\<close> is 2.
\<close>

theorem stuck_radius:
  "map radius (handle_particles (fst (deliver
      [MouseMove 400 300 0 0, AnimationFrame 1, MouseLeave, AnimationFrame 2] single_start))) = [4] \<and>
   map originalRadius (handle_particles (fst (deliver
      [MouseMove 400 300 0 0, AnimationFrame 1, MouseLeave, AnimationFrame 2] single_start))) = [2] \<and>
   handle_pointer (fst (deliver
      [MouseMove 400 300 0 0, AnimationFrame 1, MouseLeave, AnimationFrame 2] single_start)) = None"
  by (simp add: single_start_eq single_options_resolved
      animate_def update_eq mouse_interaction_def apply_velocity_def random_velocity_def
      clamp_velocity_def boundary_collision_def draw_def connectParticles_eq
      proximity_edges_single requestAnimationFrame_def fresh_host_def Let_def atan2_origin)

end
